theory Spec2Isabelle
  imports Main "HOL-Library.AList"
begin

section \<open>Python primitives used by tools/internal\_test.py\<close>

text \<open>
  Strings are Python 2 byte strings, modelled as \<open>string\<close>. The functions of this
  section are the library operations the script calls: \<open>str.replace\<close> on single
  characters, \<open>' '.join\<close>, \<open>str.endswith\<close>, \<open>str.strip\<close>, \<open>str.split\<close>,
  \<open>os.path.join\<close> (posixpath, two arguments) and \<open>str\<close> on the values the script
  archives.
\<close>

definition replace_char :: "char \<Rightarrow> char \<Rightarrow> string \<Rightarrow> string" where
  "replace_char old new s = map (\<lambda>c. if c = old then new else c) s"

fun join_with :: "string \<Rightarrow> string list \<Rightarrow> string" where
  "join_with sep [] = []"
| "join_with sep [x] = x"
| "join_with sep (x # y # ys) = x @ sep @ join_with sep (y # ys)"

definition endswith :: "string \<Rightarrow> string \<Rightarrow> bool" where
  "endswith s suffix = (length suffix \<le> length s \<and> drop (length s - length suffix) s = suffix)"

definition startswith :: "string \<Rightarrow> string \<Rightarrow> bool" where
  "startswith s pre = (take (length pre) s = pre)"

definition nl :: char where
  "nl = CHR 0x0A"

definition is_space :: "char \<Rightarrow> bool" where
  "is_space c = (c \<in> set [CHR '' '', CHR 0x09, CHR 0x0A, CHR 0x0B, CHR 0x0C, CHR 0x0D])"

definition strip :: "string \<Rightarrow> string" where
  "strip s = rev (dropWhile is_space (rev (dropWhile is_space s)))"

fun split_on :: "char \<Rightarrow> string \<Rightarrow> string list" where
  "split_on sep [] = [[]]"
| "split_on sep (c # cs) =
     (if c = sep then [] # split_on sep cs
      else (case split_on sep cs of
              [] \<Rightarrow> [[c]]
            | part # parts \<Rightarrow> (c # part) # parts))"

definition os_path_join :: "string \<Rightarrow> string \<Rightarrow> string" where
  "os_path_join a b =
     (if startswith b ''/'' then b
      else if a = [] \<or> endswith a ''/'' then a @ b
      else a @ ''/'' @ b)"

fun str_nat :: "nat \<Rightarrow> string" where
  "str_nat n =
     (if n < 10 then [''0123456789'' ! n]
      else str_nat (n div 10) @ [''0123456789'' ! (n mod 10)])"

declare str_nat.simps [simp del]

definition str_int :: "int \<Rightarrow> string" where
  "str_int i = (if i < 0 then CHR ''-'' # str_nat (nat (- i)) else str_nat (nat i))"

text \<open>The values the script hands to \<open>str\<close> (through \<open>utils.archive_value\<close>).\<close>

datatype pyval = PStr string | PInt int | PBool bool

fun str :: "pyval \<Rightarrow> string" where
  "str (PStr s) = s"
| "str (PInt i) = str_int i"
| "str (PBool b) = (if b then ''True'' else ''False'')"

text \<open>
  Truthiness of what \<open>execute\<close> returns: \<open>None\<close> (the empty command) and \<open>0\<close> are
  false, every other return code is true. \<open>any\<close> over a list is \<open>list_ex\<close> of it.
\<close>

fun truthy :: "int option \<Rightarrow> bool" where
  "truthy None = False"
| "truthy (Some rc) = (rc \<noteq> 0)"

definition py_any :: "int option list \<Rightarrow> bool" where
  "py_any xs = list_ex truthy xs"

section \<open>Constants of the script\<close>

definition PULL_DELAY :: nat where
  "PULL_DELAY = 30"

definition TEST_RESULT_DIR :: string where
  "TEST_RESULT_DIR = ''internal''"

definition READY_FOR_TESTING :: string where
  "READY_FOR_TESTING = ''READY_FOR_TESTING''"

definition TESTING :: string where
  "TESTING = ''TESTING''"

definition TESTING_COMPLETE :: string where
  "TESTING_COMPLETE = ''TESTING_COMPLETE''"

definition ALL_MAGIC :: "string list" where
  "ALL_MAGIC = [READY_FOR_TESTING, TESTING, TESTING_COMPLETE]"

definition STDERR :: string where
  "STDERR = ''stderr''"

definition STDOUT :: string where
  "STDOUT = ''stdout''"

definition EXITCODE :: string where
  "EXITCODE = ''exitcode''"

definition TIMED_OUT :: string where
  "TIMED_OUT = ''timed_out''"

record benchmark_app =
  app :: string
  version :: string
  find_xmx_min :: nat
  find_xmx_max :: nat
  find_xmx_range :: nat
  oom_threshold :: nat
  skip_find_xmx_max :: bool

definition BENCHMARK_APPS :: "benchmark_app list" where
  "BENCHMARK_APPS =
     [\<lparr>app = ''r8'', version = ''cf'', find_xmx_min = 128, find_xmx_max = 400,
       find_xmx_range = 16, oom_threshold = 247, skip_find_xmx_max = False\<rparr>,
      \<lparr>app = ''chrome'', version = ''180917'', find_xmx_min = 256, find_xmx_max = 450,
       find_xmx_range = 16, oom_threshold = 426, skip_find_xmx_max = False\<rparr>,
      \<lparr>app = ''youtube'', version = ''12.22'', find_xmx_min = 800, find_xmx_max = 1200,
       find_xmx_range = 32, oom_threshold = 1037, skip_find_xmx_max = True\<rparr>,
      \<lparr>app = ''iosched'', version = ''2019'', find_xmx_min = 128, find_xmx_max = 1024,
       find_xmx_range = 16, oom_threshold = 267, skip_find_xmx_max = False\<rparr>]"

text \<open>
  The two assertions at the head of \<open>find_min_xmx_command\<close>. The function is only
  applied to \<open>BENCHMARK_APPS\<close>, at import time; \<open>find_min_xmx_asserts_hold\<close> below
  shows that no assertion fails there, so the command builder itself is total.
\<close>

definition find_min_xmx_asserts :: "benchmark_app \<Rightarrow> bool" where
  "find_min_xmx_asserts r =
     (find_xmx_min r < find_xmx_max r \<and>
      int (find_xmx_range r) < int (find_xmx_max r) - int (find_xmx_min r))"

definition find_min_xmx_command :: "benchmark_app \<Rightarrow> string list" where
  "find_min_xmx_command r =
     [''tools/run_on_app.py'',
      ''--compiler=r8'',
      ''--compiler-build=lib'',
      ''--app='' @ app r,
      ''--version='' @ version r,
      ''--no-debug'',
      ''--no-build'',
      ''--find-min-xmx'',
      ''--find-min-xmx-min-memory='' @ str_nat (find_xmx_min r),
      ''--find-min-xmx-max-memory='' @ str_nat (find_xmx_max r),
      ''--find-min-xmx-range-size='' @ str_nat (find_xmx_range r),
      ''--find-min-xmx-archive'']"

text \<open>
  \<open>int(threshold * 1.15)\<close> and \<open>int(threshold * 0.85)\<close> truncate a float product;
  on the four thresholds of \<open>BENCHMARK_APPS\<close> the products are at least 0.04 away
  from an integer, so the truncation is the integer quotient written here.
\<close>

definition compile_with_memory_max_command :: "benchmark_app \<Rightarrow> string list" where
  "compile_with_memory_max_command r =
     (if skip_find_xmx_max r then []
      else [''tools/run_on_app.py'',
            ''--compiler=r8'',
            ''--compiler-build=lib'',
            ''--app='' @ app r,
            ''--version='' @ version r,
            ''--no-debug'',
            ''--no-build'',
            ''--max-memory='' @ str_nat (oom_threshold r * 115 div 100)])"

definition compile_with_memory_min_command :: "benchmark_app \<Rightarrow> string list" where
  "compile_with_memory_min_command r =
     [''tools/run_on_app.py'',
      ''--compiler=r8'',
      ''--compiler-build=lib'',
      ''--app='' @ app r,
      ''--version='' @ version r,
      ''--no-debug'',
      ''--no-build'',
      ''--expect-oom'',
      ''--max-memory='' @ str_nat (oom_threshold r * 85 div 100)]"

definition TEST_COMMANDS :: "string list list" where
  "TEST_COMMANDS =
     [[''tools/test.py'', ''--only_internal'', ''--slow_tests'',
       ''--java_max_memory_size=8G''],
      [''tools/run_on_app.py'', ''--run-all'', ''--out=out''],
      [''tools/gradle.py'', ''r8lib'']]
     @ (map find_min_xmx_command BENCHMARK_APPS
        @ map compile_with_memory_max_command BENCHMARK_APPS
        @ map compile_with_memory_min_command BENCHMARK_APPS)"

definition RUN_TIMEOUT :: nat where
  "RUN_TIMEOUT = 3600 * 6"

definition BOT_RUN_TIMEOUT :: nat where
  "BOT_RUN_TIMEOUT = RUN_TIMEOUT * length TEST_COMMANDS"

section \<open>The world the script acts on\<close>

text \<open>
  An external program is known to the script only through \<open>Popen.poll\<close> and the clock
  read beside it. \<open>poll p j k\<close> is what the \<open>j\<close>-th call of \<open>popen.poll()\<close> returns
  (counting from 0) when \<open>popen.terminate()\<close> has been called \<open>k\<close> times so far
  (\<open>None\<close>: still running; otherwise the return code, negative when a signal ended the
  process). \<open>elapsed p j\<close> is \<open>time.time() - begin\<close> as the \<open>j\<close>-th pass of the liveness
  loop reads it, in seconds rounded up to a whole number: the script compares it with
  the whole number \<open>RUN_TIMEOUT\<close>, and a time is greater than a whole number exactly
  when its rounding up is. How long a pass of the loop takes (the two seconds of its
  sleep and what the machine adds to them) is not the script's to decide, so \<open>elapsed\<close>
  is any function. \<open>out\<close> and \<open>err\<close> are the bytes the process has written to the two
  files of the temporary directory.
\<close>

record process =
  poll :: "nat \<Rightarrow> nat \<Rightarrow> int option"
  elapsed :: "nat \<Rightarrow> nat"
  out :: string
  err :: string

text \<open>How a run of the script ends when it does not return: \<open>sys.exit\<close>, an exception,
  or \<open>os.execv\<close> replacing the process image.\<close>

datatype abort = SysExit int | Raised string | Execv

datatype event =
    RestartCheck
  | ExecvSelf
  | BlobExists string
  | BlobCat string
  | BlobLs string
  | BlobPut string string
  | BlobDelete string
  | GitPull
  | GitCheckout string
  | Popen "string list"
  | Terminate
  | GradleStop
  | Print string

type_synonym store = "(string \<times> string) list"

text \<open>
  \<open>gcs\<close> is the Blob State Store (key to content). \<open>HEAD\<close>, \<open>git_dirty\<close>, \<open>master_tip\<close>,
  \<open>commits\<close> and \<open>script_at\<close> are the local git checkout as the script's git commands see
  it: \<open>commits ref\<close> is the revision \<open>git checkout ref\<close> lands on (\<open>None\<close>: the
  checkout fails), \<open>script_at sha\<close> the text of tools/internal\_test.py at that revision,
  \<open>own_file\<close> the text of the script on disk. \<open>programs\<close> gives the behaviour of each
  command. \<open>clock\<close> is the time in seconds as the script's own \<open>time.sleep\<close> calls
  advance it (the clock read inside \<open>execute\<close>, while a command runs, is \<open>elapsed\<close>).
  \<open>trace\<close> lists the effects in the order they happen, and \<open>states\<close> the contents of
  the store after each of the script's own writes and deletes.
\<close>

record world =
  gcs :: store
  R8_TEST_RESULTS_BUCKET :: string
  HEAD :: string
  git_dirty :: bool
  master_tip :: string
  commits :: "string \<Rightarrow> string option"
  script_at :: "string \<Rightarrow> string"
  own_file :: string
  programs :: "string list \<Rightarrow> process"
  clock :: nat
  trace :: "event list"
  states :: "store list"

definition emit :: "event \<Rightarrow> world \<Rightarrow> world" where
  "emit e w = w\<lparr>trace := trace w @ [e]\<rparr>"

definition sleep :: "nat \<Rightarrow> world \<Rightarrow> world" where
  "sleep d w = w\<lparr>clock := clock w + d\<rparr>"

section \<open>The object-store client (tools/utils.py)\<close>

text \<open>
  Modelled from the spec: tools/utils.py (\<open>archive_value\<close>, \<open>archive_file\<close>,
  \<open>cat_file_on_cloud_storage\<close>, \<open>file_exists_on_cloud_storage\<close>,
  \<open>delete_file_from_cloud_storage\<close>, \<open>ls_files_on_cloud_storage\<close>, \<open>get_HEAD_sha1\<close>) is
  not among the sources. The spec gives the store as keyed get/put/delete/list/exists
  over a namespace with atomic single-key operations; the script itself fixes the key
  of a put (\<open>get_magic_file_gs_path\<close> reads at \<open>dir/name\<close> what \<open>put_magic_file\<close>
  archived under \<open>name\<close> in \<open>dir\<close>) and the shape of a listing (an entry for a
  directory ends in \<open>/\<close>, since \<open>fetch_and_print_logs\<close> appends the field name to it;
  the entry of a blob is its key). A read of an absent key raises unless
  \<open>ignore_errors\<close> is set, in which case it yields the empty string.
\<close>

definition store_put :: "string \<Rightarrow> string \<Rightarrow> world \<Rightarrow> world" where
  "store_put key content w =
     (let s = AList.update key content (gcs w)
      in w\<lparr>gcs := s, trace := trace w @ [BlobPut key content], states := states w @ [s]\<rparr>)"

definition archive_file :: "string \<Rightarrow> string \<Rightarrow> string \<Rightarrow> world \<Rightarrow> world" where
  "archive_file name gs_dir content w = store_put (gs_dir @ ''/'' @ name) content w"

definition archive_value :: "string \<Rightarrow> string \<Rightarrow> pyval \<Rightarrow> world \<Rightarrow> world" where
  "archive_value name gs_dir v w = archive_file name gs_dir (str v) w"

definition cat_file_on_cloud_storage ::
  "string \<Rightarrow> bool \<Rightarrow> world \<Rightarrow> (abort + string) \<times> world" where
  "cat_file_on_cloud_storage destination ignore_errors w =
     (case map_of (gcs w) destination of
        Some content \<Rightarrow> (Inr content, emit (BlobCat destination) w)
      | None \<Rightarrow>
          if ignore_errors then (Inr [], emit (BlobCat destination) w)
          else (Inl (Raised ''CalledProcessError''), emit (BlobCat destination) w))"

definition file_exists_on_cloud_storage :: "string \<Rightarrow> world \<Rightarrow> bool \<times> world" where
  "file_exists_on_cloud_storage destination w =
     (map_of (gcs w) destination \<noteq> None, emit (BlobExists destination) w)"

definition delete_file_from_cloud_storage :: "string \<Rightarrow> world \<Rightarrow> world" where
  "delete_file_from_cloud_storage destination w =
     (let s = AList.delete destination (gcs w)
      in w\<lparr>gcs := s, trace := trace w @ [BlobDelete destination], states := states w @ [s]\<rparr>)"

definition ls_entry :: "string \<Rightarrow> string \<Rightarrow> string option" where
  "ls_entry destination key =
     (let prefix = destination @ ''/'' in
      if startswith key prefix \<and> length prefix < length key then
        (let rest = drop (length prefix) key;
             child = takeWhile (\<lambda>c. c \<noteq> CHR ''/'') rest
         in if child = rest then Some key else Some (prefix @ child @ ''/''))
      else None)"

definition ls_files_on_cloud_storage :: "string \<Rightarrow> world \<Rightarrow> string \<times> world" where
  "ls_files_on_cloud_storage destination w =
     (concat (map (\<lambda>e. e @ [nl])
                (remdups (List.map_filter (\<lambda>(k, _). ls_entry destination k) (gcs w)))),
      emit (BlobLs destination) w)"

definition get_HEAD_sha1 :: "world \<Rightarrow> string" where
  "get_HEAD_sha1 w = HEAD w"

section \<open>Self update and git\<close>

definition get_own_file_content :: "world \<Rightarrow> string" where
  "get_own_file_content w = own_file w"

definition restart_if_new_version :: "string \<Rightarrow> world \<Rightarrow> (abort + unit) \<times> world" where
  "restart_if_new_version original_content w =
     (let new_content = get_own_file_content w;
          w1 = emit RestartCheck w
      in if new_content \<noteq> original_content then (Inl Execv, emit ExecvSelf w1)
         else (Inr (), w1))"

definition ensure_git_clean :: "world \<Rightarrow> (abort + unit) \<times> world" where
  "ensure_git_clean w = (if git_dirty w then (Inl (SysExit 1), w) else (Inr (), w))"

definition git_pull :: "world \<Rightarrow> (abort + string) \<times> world" where
  "git_pull w =
     (case ensure_git_clean w of
        (Inl e, w1) \<Rightarrow> (Inl e, w1)
      | (Inr _, w1) \<Rightarrow>
          (let w2 = emit GitPull
                      (w1\<lparr>HEAD := master_tip w1, own_file := script_at w1 (master_tip w1)\<rparr>)
           in (Inr (get_HEAD_sha1 w2), w2)))"

definition git_checkout :: "string \<Rightarrow> world \<Rightarrow> (abort + string option) \<times> world" where
  "git_checkout git_hash w =
     (case ensure_git_clean w of
        (Inl e, w1) \<Rightarrow> (Inl e, w1)
      | (Inr _, w1) \<Rightarrow>
          (case git_pull w1 of
             (Inl e, w2) \<Rightarrow> (Inl e, w2)
           | (Inr _, w2) \<Rightarrow>
               (let w3 = emit (GitCheckout git_hash) w2
                in case commits w3 git_hash of
                     None \<Rightarrow> (Inr None, w3)
                   | Some sha \<Rightarrow>
                       (let w4 = w3\<lparr>HEAD := sha, own_file := script_at w3 sha\<rparr>
                        in (Inr (Some (get_HEAD_sha1 w4)), w4)))))"

section \<open>Result locations and archiving\<close>

definition get_test_result_dir :: "world \<Rightarrow> string" where
  "get_test_result_dir w = os_path_join (R8_TEST_RESULTS_BUCKET w) TEST_RESULT_DIR"

definition get_sha_destination :: "string \<Rightarrow> world \<Rightarrow> string" where
  "get_sha_destination sha w = os_path_join (get_test_result_dir w) sha"

definition archive_status :: "int \<Rightarrow> world \<Rightarrow> world" where
  "archive_status failed w =
     (let gs_destination = ''gs://'' @ get_sha_destination (get_HEAD_sha1 w) w
      in archive_value ''status'' gs_destination (PInt failed) w)"

definition get_status :: "string \<Rightarrow> world \<Rightarrow> (abort + string) \<times> world" where
  "get_status sha w =
     (let gs_destination = ''gs://'' @ get_sha_destination sha w @ ''/status''
      in cat_file_on_cloud_storage gs_destination False w)"

text \<open>
  \<open>archive_log\<close> receives the paths of the two capture files and uploads them; the
  model passes their contents.
\<close>

definition archive_log :: "string \<Rightarrow> string \<Rightarrow> int \<Rightarrow> bool \<Rightarrow> string \<Rightarrow> world \<Rightarrow> world" where
  "archive_log stdout stderr exitcode timed_out cmd w =
     (let sha = get_HEAD_sha1 w;
          cmd_dir = replace_char (CHR ''/'') (CHR ''_'') (replace_char (CHR '' '') (CHR ''_'') cmd);
          destination = os_path_join (get_sha_destination sha w) cmd_dir;
          gs_destination = ''gs://'' @ destination;
          w1 = archive_value EXITCODE gs_destination (PInt exitcode) w;
          w2 = archive_value TIMED_OUT gs_destination (PBool timed_out) w1;
          w3 = archive_file STDOUT gs_destination stdout w2;
          w4 = archive_file STDERR gs_destination stderr w3
      in w4)"


section \<open>Signal blobs\<close>

definition get_magic_file_base_path :: "world \<Rightarrow> string" where
  "get_magic_file_base_path w = ''gs://'' @ get_test_result_dir w @ ''/magic''"

definition get_magic_file_gs_path :: "string \<Rightarrow> world \<Rightarrow> string" where
  "get_magic_file_gs_path name w = get_magic_file_base_path w @ ''/'' @ name"

definition get_magic_file_exists :: "string \<Rightarrow> world \<Rightarrow> bool \<times> world" where
  "get_magic_file_exists name w =
     file_exists_on_cloud_storage (get_magic_file_gs_path name w) w"

definition delete_magic_file :: "string \<Rightarrow> world \<Rightarrow> world" where
  "delete_magic_file name w =
     delete_file_from_cloud_storage (get_magic_file_gs_path name w) w"

definition put_magic_file :: "string \<Rightarrow> string \<Rightarrow> world \<Rightarrow> world" where
  "put_magic_file name sha w =
     archive_value name (get_magic_file_base_path w) (PStr sha) w"

definition get_magic_file_content ::
  "string \<Rightarrow> bool \<Rightarrow> world \<Rightarrow> (abort + string) \<times> world" where
  "get_magic_file_content name ignore_errors w =
     cat_file_on_cloud_storage (get_magic_file_gs_path name w) ignore_errors w"

text \<open>The loop of \<open>print_magic_file_state\<close> over the names; the log lines themselves
  are not modelled, the reads are.\<close>

fun print_magic_files :: "string list \<Rightarrow> world \<Rightarrow> world" where
  "print_magic_files [] w = w"
| "print_magic_files (magic # rest) w =
     (case get_magic_file_exists magic w of
        (True, w1) \<Rightarrow> print_magic_files rest (snd (get_magic_file_content magic True w1))
      | (False, w1) \<Rightarrow> print_magic_files rest w1)"

definition print_magic_file_state :: "world \<Rightarrow> world" where
  "print_magic_file_state w = print_magic_files ALL_MAGIC w"

section \<open>Reading archived logs\<close>

text \<open>
  The inner loop of \<open>fetch_and_print_logs\<close> over the four field names of one listing
  entry, and the outer loop over the listing. A failing read raises and ends the
  function. The report of \<open>run_on_app.print_min_xmx_ranges_for_hash\<close> that follows the
  loops belongs to another module and is left out.
\<close>

fun print_fields :: "string \<Rightarrow> string list \<Rightarrow> world \<Rightarrow> (abort + unit) \<times> world" where
  "print_fields entry [] w = (Inr (), w)"
| "print_fields entry (to_print # rest) w =
     (let gs_location = entry @ to_print in
      case cat_file_on_cloud_storage gs_location False w of
        (Inl e, w1) \<Rightarrow> (Inl e, w1)
      | (Inr v, w1) \<Rightarrow>
          print_fields entry rest
            (emit (Print ([nl, nl] @ to_print @ '' had value:'' @ [nl] @ v)) w1))"

fun print_entries :: "string list \<Rightarrow> world \<Rightarrow> (abort + unit) \<times> world" where
  "print_entries [] w = (Inr (), w)"
| "print_entries (entry # rest) w =
     (if \<not> endswith entry ''/status'' then
        (case print_fields entry [EXITCODE, TIMED_OUT, STDERR, STDOUT] w of
           (Inl e, w1) \<Rightarrow> (Inl e, w1)
         | (Inr _, w1) \<Rightarrow> print_entries rest w1)
      else print_entries rest w)"

definition fetch_and_print_logs :: "string \<Rightarrow> world \<Rightarrow> (abort + unit) \<times> world" where
  "fetch_and_print_logs hash w =
     (let gs_base = ''gs://'' @ get_sha_destination hash w in
      case ls_files_on_cloud_storage gs_base w of
        (listing_text, w1) \<Rightarrow>
          (let listing = split_on nl (strip listing_text) in
           case print_entries listing w1 of
             (Inl e, w2) \<Rightarrow> (Inl e, w2)
           | (Inr _, w2) \<Rightarrow>
               (Inr (), emit (Print ([nl, nl] @ ''Printing find-min-xmx ranges for apps'')) w2)))"

section \<open>Command Runner and Run Sequencer\<close>

definition handle_output ::
  "bool \<Rightarrow> string \<Rightarrow> string \<Rightarrow> int \<Rightarrow> bool \<Rightarrow> string \<Rightarrow> world \<Rightarrow> world" where
  "handle_output archive stderr stdout exitcode timed_out cmd w =
     (if archive then archive_log stdout stderr exitcode timed_out cmd w
      else
        (let w1 = emit (Print (''Execution of '' @ cmd @ '' resulted in:'')) w;
             w2 = emit (Print (''exit code: '' @ str (PInt exitcode) @ '' '')) w1;
             w3 = emit (Print (''timeout: '' @ str (PBool timed_out) @ '' '')) w2;
             w4 = emit (Print (''stderr: '' @ stderr)) w3;
             w5 = emit (Print (''stdout: '' @ stdout)) w4
         in w5))"

text \<open>
  The liveness loop of \<open>execute\<close>: \<open>j\<close> counts the passes (the calls of
  \<open>popen.poll()\<close>), \<open>k\<close> the \<open>popen.terminate()\<close> calls made, \<open>timed_out\<close> is the flag.
  The loop may run for ever (a process that never exits and ignores the termination
  signal), so it takes a bound on the number of polls and yields \<open>None\<close> when the bound
  is used up. The result is the return code, the flag, the number of passes that have
  slept and the number of terminate calls.
\<close>

fun wait_for ::
  "nat \<Rightarrow> process \<Rightarrow> nat \<Rightarrow> nat \<Rightarrow> bool \<Rightarrow> (int \<times> bool \<times> nat \<times> nat) option" where
  "wait_for 0 p j k timed_out = None"
| "wait_for (Suc fuel) p j k timed_out =
     (case poll p j k of
        Some returncode \<Rightarrow> Some (returncode, timed_out, j, k)
      | None \<Rightarrow>
          if elapsed p j > RUN_TIMEOUT then wait_for fuel p (Suc j) (Suc k) True
          else wait_for fuel p (Suc j) k timed_out)"

definition execute :: "nat \<Rightarrow> string list \<Rightarrow> bool \<Rightarrow> world \<Rightarrow> (int option \<times> world) option" where
  "execute fuel cmd archive w =
     (if cmd = [] then Some (None, w)
      else
        (let popen = programs w cmd in
         case wait_for fuel popen 0 0 False of
           None \<Rightarrow> None
         | Some (exitcode, timed_out, j, k) \<Rightarrow>
             (let w1 = emit (Popen cmd) w;
                  w2 = sleep (2 * j) (w1\<lparr>trace := trace w1 @ replicate k Terminate\<rparr>);
                  w3 = (if exitcode \<noteq> 0
                        then handle_output archive (err popen) (out popen) exitcode
                               timed_out (join_with '' '' cmd) w2
                        else w2)
              in Some (Some exitcode, w3))))"

text \<open>The list comprehension \<open>[execute(cmd, archive, env) for cmd in ...]\<close>.\<close>

fun execute_all ::
  "nat \<Rightarrow> string list list \<Rightarrow> bool \<Rightarrow> world \<Rightarrow> (int option list \<times> world) option" where
  "execute_all fuel [] archive w = Some ([], w)"
| "execute_all fuel (cmd # cmds) archive w =
     (case execute fuel cmd archive w of
        None \<Rightarrow> None
      | Some (r, w1) \<Rightarrow>
          (case execute_all fuel cmds archive w1 of
             None \<Rightarrow> None
           | Some (rs, w2) \<Rightarrow> Some (r # rs, w2)))"

text \<open>The body of \<open>run_once\<close> over a given command list; \<open>run_once\<close> is its instance
  at \<open>TEST_COMMANDS\<close>. \<open>gradle.RunGradle(['--stop'])\<close> is recorded as an event.\<close>

definition run_once_on ::
  "string list list \<Rightarrow> nat \<Rightarrow> bool \<Rightarrow> world \<Rightarrow> (bool \<times> world) option" where
  "run_once_on cmds fuel archive w =
     (case execute_all fuel cmds archive w of
        None \<Rightarrow> None
      | Some (rs, w1) \<Rightarrow>
          (let failed = py_any rs;
               w2 = emit GradleStop w1;
               w3 = archive_status (if failed then 1 else 0) w2
           in Some (failed, w3)))"

definition run_once :: "nat \<Rightarrow> bool \<Rightarrow> world \<Rightarrow> (bool \<times> world) option" where
  "run_once fuel archive w = run_once_on TEST_COMMANDS fuel archive w"


section \<open>The consumer: \<open>run_continuously\<close>\<close>

text \<open>Python's \<open>not checked_out\<close>: true of \<open>None\<close> and of the empty string.\<close>

fun not_checked_out :: "string option \<Rightarrow> bool" where
  "not_checked_out None = True"
| "not_checked_out (Some sha) = (sha = [])"

text \<open>
  One pass through the body of the \<open>while True\<close> loop of \<open>run_continuously\<close>. \<open>Inr ()\<close>
  is the end of the pass (by \<open>continue\<close>, which skips the sleep, or after the sleep);
  \<open>Inl\<close> is \<open>os.execv\<close>, \<open>sys.exit\<close> or an exception. The outer \<open>None\<close> is a command
  of \<open>run_once\<close> that has not returned within the bound on polls.
\<close>

definition iteration :: "nat \<Rightarrow> string \<Rightarrow> world \<Rightarrow> ((abort + unit) \<times> world) option" where
  "iteration fuel own_content w =
     (case restart_if_new_version own_content w of
        (Inl e, w1) \<Rightarrow> Some (Inl e, w1)
      | (Inr _, w1) \<Rightarrow>
          (case get_magic_file_exists READY_FOR_TESTING (print_magic_file_state w1) of
             (False, w2) \<Rightarrow> Some (Inr (), sleep PULL_DELAY w2)
           | (True, w2) \<Rightarrow>
               (case get_magic_file_content READY_FOR_TESTING False w2 of
                  (Inl e, w3) \<Rightarrow> Some (Inl e, w3)
                | (Inr git_hash, w3) \<Rightarrow>
                    (case git_checkout git_hash w3 of
                       (Inl e, w4) \<Rightarrow> Some (Inl e, w4)
                     | (Inr checked_out, w4) \<Rightarrow>
                         if not_checked_out checked_out then
                           Some (Inr (),
                             delete_magic_file READY_FOR_TESTING
                               (put_magic_file TESTING_COMPLETE git_hash
                                  (archive_status 0 w4)))
                         else
                           (case restart_if_new_version own_content w4 of
                              (Inl e, w5) \<Rightarrow> Some (Inl e, w5)
                            | (Inr _, w5) \<Rightarrow>
                                if checked_out \<noteq> Some git_hash then Some (Inl (SysExit 1), w5)
                                else
                                  (case run_once fuel True
                                          (delete_magic_file READY_FOR_TESTING
                                             (put_magic_file TESTING git_hash w5)) of
                                     None \<Rightarrow> None
                                   | Some (exitcode, w6) \<Rightarrow>
                                       Some (Inr (),
                                         sleep PULL_DELAY
                                           (delete_magic_file TESTING
                                              (put_magic_file TESTING_COMPLETE git_hash w6)))))))))"

text \<open>
  The loop itself never returns; it ends only by an abort. \<open>rounds\<close> bounds the number
  of passes, and \<open>None\<close> says that the loop is still running after that many (or that
  a command has not returned). Between two passes the other party may have changed
  the store: \<open>peer t s\<close> is the store it leaves, given the time and the store it found.
\<close>

fun run_continuously_loop ::
  "(nat \<Rightarrow> store \<Rightarrow> store) \<Rightarrow> nat \<Rightarrow> nat \<Rightarrow> string \<Rightarrow> world \<Rightarrow> (abort \<times> world) option" where
  "run_continuously_loop peer 0 fuel own_content w = None"
| "run_continuously_loop peer (Suc rounds) fuel own_content w =
     (case iteration fuel own_content w of
        None \<Rightarrow> None
      | Some (Inl e, w1) \<Rightarrow> Some (e, w1)
      | Some (Inr _, w1) \<Rightarrow>
          run_continuously_loop peer rounds fuel own_content
            (w1\<lparr>gcs := peer (clock w1) (gcs w1)\<rparr>))"

definition run_continuously ::
  "(nat \<Rightarrow> store \<Rightarrow> store) \<Rightarrow> nat \<Rightarrow> nat \<Rightarrow> world \<Rightarrow> (abort \<times> world) option" where
  "run_continuously peer rounds fuel w =
     run_continuously_loop peer rounds fuel (get_own_file_content w) w"

section \<open>The producer: \<open>run_bot\<close>\<close>

text \<open>The cleanup loop at the head of \<open>run_bot\<close>.\<close>

fun cleanup_magic :: "string list \<Rightarrow> world \<Rightarrow> world" where
  "cleanup_magic [] w = w"
| "cleanup_magic (magic # rest) w =
     (case get_magic_file_exists magic w of
        (True, w1) \<Rightarrow> cleanup_magic rest (delete_magic_file magic w1)
      | (False, w1) \<Rightarrow> cleanup_magic rest w1)"

text \<open>\<open>time.sleep\<close> of a poll loop, during which the other party acts on the store.\<close>

definition sleep_beside :: "(nat \<Rightarrow> store \<Rightarrow> store) \<Rightarrow> nat \<Rightarrow> world \<Rightarrow> world" where
  "sleep_beside peer d w = sleep d (w\<lparr>gcs := peer (clock w) (gcs w)\<rparr>)"

text \<open>
  The \<open>while True\<close> loop of \<open>run_bot\<close> (lines 286 to 298): \<open>Inr ()\<close> is the \<open>break\<close>.
  Every pass that does not end the loop sleeps \<open>PULL_DELAY\<close> seconds, so the timeout
  ends it.
\<close>

function bot_wait ::
  "(nat \<Rightarrow> store \<Rightarrow> store) \<Rightarrow> string \<Rightarrow> nat \<Rightarrow> world \<Rightarrow> (abort + unit) \<times> world" where
  "bot_wait peer git_hash begin w =
     (if clock w - begin > BOT_RUN_TIMEOUT then (Inl (Raised ''Bot timeout''), w)
      else
        (case get_magic_file_exists TESTING_COMPLETE w of
           (True, w1) \<Rightarrow>
             (case get_magic_file_content TESTING_COMPLETE False w1 of
                (Inl e, w2) \<Rightarrow> (Inl e, w2)
              | (Inr content, w2) \<Rightarrow>
                  if content = git_hash then (Inr (), w2)
                  else
                    (case get_magic_file_content TESTING_COMPLETE False w2 of
                       (Inl e, w3) \<Rightarrow> (Inl e, w3)
                     | (Inr content', w3) \<Rightarrow>
                         (Inl (Raised (''Non matching git hashes '' @ content'
                                        @ '' and '' @ git_hash)), w3)))
         | (False, w1) \<Rightarrow>
             bot_wait peer git_hash begin
               (sleep_beside peer PULL_DELAY (print_magic_file_state w1))))"
  by pat_completeness auto
termination
proof -
  have pm: "clock (print_magic_files ms v) = clock v" for ms v
    by (induction ms arbitrary: v)
       (auto simp: get_magic_file_exists_def file_exists_on_cloud_storage_def emit_def
          get_magic_file_content_def cat_file_on_cloud_storage_def
          split: option.splits bool.splits)
  have ex: "clock y = clock w" if "(b, y) = get_magic_file_exists n w" for b y n w
    using that
    by (auto simp: get_magic_file_exists_def file_exists_on_cloud_storage_def emit_def)
  show ?thesis
    apply (relation "measure (\<lambda>(peer, git_hash, begin, w). begin + BOT_RUN_TIMEOUT + 1 - clock w)")
     apply simp
    apply (drule ex)
    apply (simp add: sleep_beside_def sleep_def print_magic_file_state_def pm PULL_DELAY_def)
    done
qed

declare bot_wait.simps [simp del]

text \<open>Lines 299 to 307: the status is read, \<open>TESTING_COMPLETE\<close> deleted, and the
  function returns \<open>1\<close> or falls off its end (\<open>None\<close>).\<close>

definition bot_finish :: "string \<Rightarrow> world \<Rightarrow> (abort + int option) \<times> world" where
  "bot_finish git_hash w =
     (case get_status git_hash w of
        (Inl e, w1) \<Rightarrow> (Inl e, w1)
      | (Inr test_status, w1) \<Rightarrow>
          (let w2 = delete_magic_file TESTING_COMPLETE w1 in
           if test_status \<noteq> ''0'' then
             (Inr (Some 1),
              emit (Print (''  tools/internal_test.py --print_logs '' @ git_hash))
                (emit (Print ''Tests failed, you can print the logs by running(googlers only):'') w2))
           else (Inr None, w2)))"

text \<open>Lines 275 to 298: cleanup, the offer, and the wait; the result is the offered
  identifier.\<close>

definition bot_offer ::
  "(nat \<Rightarrow> store \<Rightarrow> store) \<Rightarrow> world \<Rightarrow> (abort + string) \<times> world" where
  "bot_offer peer w =
     (case get_magic_file_exists READY_FOR_TESTING
             (print_magic_file_state (cleanup_magic ALL_MAGIC (print_magic_file_state w))) of
        (True, w1) \<Rightarrow> (Inl (Raised ''AssertionError''), w1)
      | (False, w1) \<Rightarrow>
          (let git_hash = get_HEAD_sha1 w1;
               w2 = put_magic_file READY_FOR_TESTING git_hash w1;
               begin = clock w2
           in case bot_wait peer git_hash begin w2 of
                (Inl e, w3) \<Rightarrow> (Inl e, w3)
              | (Inr _, w3) \<Rightarrow> (Inr git_hash, w3)))"

definition run_bot ::
  "(nat \<Rightarrow> store \<Rightarrow> store) \<Rightarrow> world \<Rightarrow> (abort + int option) \<times> world" where
  "run_bot peer w =
     (case bot_offer peer w of
        (Inl e, w1) \<Rightarrow> (Inl e, w1)
      | (Inr git_hash, w1) \<Rightarrow> bot_finish git_hash w1)"

section \<open>Entry point\<close>

record options =
  continuous :: bool
  print_logs :: "string option"
  bot :: bool
  archive :: bool

text \<open>What \<open>Main\<close> returns: \<open>None\<close>, the \<open>1\<close> of \<open>run_bot\<close>, or the flag of \<open>run_once\<close>.\<close>

datatype ret = RNone | RInt int | RBool bool

fun option_set :: "string option \<Rightarrow> bool" where
  "option_set None = False"
| "option_set (Some s) = (s \<noteq> [])"

definition Main ::
  "options \<Rightarrow> (nat \<Rightarrow> store \<Rightarrow> store) \<Rightarrow> nat \<Rightarrow> nat \<Rightarrow> world \<Rightarrow> ((abort + ret) \<times> world) option" where
  "Main opts peer rounds fuel w =
     (if continuous opts then
        (case run_continuously peer rounds fuel w of
           None \<Rightarrow> None
         | Some (e, w1) \<Rightarrow> Some (Inl e, w1))
      else if bot opts then
        (case run_bot peer w of
           (Inl e, w1) \<Rightarrow> Some (Inl e, w1)
         | (Inr None, w1) \<Rightarrow> Some (Inr RNone, w1)
         | (Inr (Some n), w1) \<Rightarrow> Some (Inr (RInt n), w1))
      else if option_set (print_logs opts) then
        (case fetch_and_print_logs (the (print_logs opts)) w of
           (Inl e, w1) \<Rightarrow> Some (Inl e, w1)
         | (Inr _, w1) \<Rightarrow> Some (Inr RNone, w1))
      else
        (case run_once fuel (archive opts) w of
           None \<Rightarrow> None
         | Some (failed, w1) \<Rightarrow> Some (Inr (RBool failed), w1)))"

text \<open>
  The exit code of the process under \<open>sys.exit(Main())\<close>: \<open>None\<close> and \<open>False\<close> give 0,
  \<open>True\<close> gives 1, an integer itself; \<open>sys.exit(n)\<close> inside gives \<open>n\<close>, an uncaught
  exception 1. After \<open>os.execv\<close> the exit code is the new image's, not this run's.
\<close>

fun exit_code :: "abort + ret \<Rightarrow> int option" where
  "exit_code (Inr RNone) = Some 0"
| "exit_code (Inr (RInt n)) = Some n"
| "exit_code (Inr (RBool b)) = Some (if b then 1 else 0)"
| "exit_code (Inl (SysExit n)) = Some n"
| "exit_code (Inl (Raised msg)) = Some 1"
| "exit_code (Inl Execv) = None"


section \<open>Facts about the Command Runner and the Run Sequencer\<close>


lemma programs_emit [simp]: "programs (emit e w) = programs w"
  by (simp add: emit_def)
lemma programs_sleep [simp]: "programs (sleep d w) = programs w"
  by (simp add: sleep_def)
lemma programs_store_put [simp]: "programs (store_put k v w) = programs w"
  by (simp add: store_put_def Let_def)
lemma programs_archive_file [simp]: "programs (archive_file n d c w) = programs w"
  by (simp add: archive_file_def)
lemma programs_archive_value [simp]: "programs (archive_value n d v w) = programs w"
  by (simp add: archive_value_def)
lemma programs_archive_log [simp]: "programs (archive_log so se rc to cmd w) = programs w"
  by (simp add: archive_log_def Let_def)
lemma programs_handle_output [simp]: "programs (handle_output a se so rc to cmd w) = programs w"
  by (simp add: handle_output_def Let_def)
lemma programs_archive_status [simp]: "programs (archive_status f w) = programs w"
  by (simp add: archive_status_def Let_def)

lemma programs_execute: "execute fuel cmd a w = Some (r, w') \<Longrightarrow> programs w' = programs w"
  by (auto simp: execute_def Let_def split: if_splits option.splits)

text \<open>
  The loop in closed form. A pass is \<open>late\<close> when it reads a time greater than
  \<open>RUN_TIMEOUT\<close>; \<open>terminate_calls p j\<close> is the number of late passes before the
  \<open>j\<close>-th poll, each of which has called \<open>popen.terminate()\<close>; \<open>observed p j\<close> is what
  the \<open>j\<close>-th poll returns after them.
\<close>

definition late :: "process \<Rightarrow> nat \<Rightarrow> bool" where
  "late p i = (RUN_TIMEOUT < elapsed p i)"

definition terminate_calls :: "process \<Rightarrow> nat \<Rightarrow> nat" where
  "terminate_calls p j = length (filter (late p) [0..<j])"

definition observed :: "process \<Rightarrow> nat \<Rightarrow> int option" where
  "observed p j = poll p j (terminate_calls p j)"

lemma terminate_calls_0 [simp]: "terminate_calls p 0 = 0"
  by (simp add: terminate_calls_def)

lemma terminate_calls_Suc:
  "terminate_calls p (Suc j) = (if late p j then Suc (terminate_calls p j) else terminate_calls p j)"
  by (simp add: terminate_calls_def)

lemma terminate_calls_pos: "0 < terminate_calls p j \<longleftrightarrow> (\<exists>i<j. late p i)"
  by (induction j) (auto simp: terminate_calls_Suc less_Suc_eq)

lemma terminate_calls_threshold:
  assumes "\<And>i. late p i \<longleftrightarrow> m \<le> i"
  shows "terminate_calls p j = j - m"
  by (induction j) (auto simp: terminate_calls_Suc assms)

lemma wait_for_from:
  "observed p j = Some rc \<Longrightarrow> (\<And>i. i0 \<le> i \<Longrightarrow> i < j \<Longrightarrow> observed p i = None) \<Longrightarrow> i0 \<le> j \<Longrightarrow>
   j - i0 < fuel \<Longrightarrow>
   wait_for fuel p i0 (terminate_calls p i0) (0 < terminate_calls p i0)
     = Some (rc, 0 < terminate_calls p j, j, terminate_calls p j)"
proof (induction fuel arbitrary: i0)
  case 0
  then show ?case by simp
next
  case (Suc fuel)
  show ?case
  proof (cases "i0 = j")
    case True
    with Suc.prems(1) show ?thesis by (simp add: observed_def)
  next
    case False
    with Suc.prems have lt: "i0 < j" by simp
    then have none: "poll p i0 (terminate_calls p i0) = None"
      using Suc.prems(2)[of i0] by (simp add: observed_def)
    have step: "wait_for fuel p (Suc i0) (terminate_calls p (Suc i0)) (0 < terminate_calls p (Suc i0))
                = Some (rc, 0 < terminate_calls p j, j, terminate_calls p j)"
      using Suc.prems lt by (intro Suc.IH) auto
    show ?thesis
    proof (cases "late p i0")
      case True
      with step none show ?thesis by (simp add: terminate_calls_Suc late_def)
    next
      case False
      with step none show ?thesis by (simp add: terminate_calls_Suc late_def)
    qed
  qed
qed

lemma wait_for_first_exit:
  assumes "observed p j = Some rc" and "\<And>i. i < j \<Longrightarrow> observed p i = None" and "j < fuel"
  shows "wait_for fuel p 0 0 False = Some (rc, 0 < terminate_calls p j, j, terminate_calls p j)"
  using wait_for_from[of p j rc 0 fuel] assms by simp


definition execution_record :: "nat \<Rightarrow> world \<Rightarrow> string list \<Rightarrow> (int \<times> bool) option" where
  "execution_record fuel w cmd =
     (if cmd = [] then None
      else map_option (\<lambda>(returncode, timed_out, t, k). (returncode, timed_out))
             (wait_for fuel (programs w cmd) 0 0 False))"

definition returns :: "nat \<Rightarrow> world \<Rightarrow> string list \<Rightarrow> bool" where
  "returns fuel w cmd = (cmd = [] \<or> wait_for fuel (programs w cmd) 0 0 False \<noteq> None)"

lemma execution_record_cong:
  "programs w1 = programs w \<Longrightarrow> execution_record fuel w1 = execution_record fuel w"
  by (auto simp: execution_record_def fun_eq_iff)

lemma returns_cong: "programs w1 = programs w \<Longrightarrow> returns fuel w1 = returns fuel w"
  by (auto simp: returns_def fun_eq_iff)

lemma execute_result:
  "returns fuel w cmd \<Longrightarrow>
   \<exists>w'. execute fuel cmd a w = Some (map_option fst (execution_record fuel w cmd), w')
        \<and> programs w' = programs w"
  by (auto simp: returns_def execute_def execution_record_def Let_def split: option.splits)

lemma execute_all_results:
  "list_all (returns fuel w) cmds \<Longrightarrow>
   \<exists>w'. execute_all fuel cmds a w
          = Some (map (\<lambda>cmd. map_option fst (execution_record fuel w cmd)) cmds, w')
        \<and> programs w' = programs w"
proof (induction cmds arbitrary: w)
  case Nil
  then show ?case by simp
next
  case (Cons cmd cmds)
  from Cons.prems have "returns fuel w cmd" by simp
  from execute_result[OF this, of a] obtain w1 where
    w1: "execute fuel cmd a w = Some (map_option fst (execution_record fuel w cmd), w1)"
    and p1: "programs w1 = programs w" by blast
  have r1: "returns fuel w1 = returns fuel w" and e1: "execution_record fuel w1 = execution_record fuel w"
    using p1 by (rule returns_cong, rule execution_record_cong)
  from Cons.prems have "list_all (returns fuel w1) cmds"
    unfolding r1 by simp
  from Cons.IH[OF this] obtain w2 where
    w2: "execute_all fuel cmds a w1
          = Some (map (\<lambda>cmd. map_option fst (execution_record fuel w cmd)) cmds, w2)"
    and p2: "programs w2 = programs w1" unfolding e1 by blast
  have "execute_all fuel (cmd # cmds) a w
        = Some (map (\<lambda>cmd. map_option fst (execution_record fuel w cmd)) (cmd # cmds), w2)"
    by (simp only: execute_all.simps w1 w2 option.case prod.case list.map)
  moreover have "programs w2 = programs w" using p1 p2 by (rule_tac trans)
  ultimately show ?case by blast
qed

lemma py_any_records:
  "py_any (map (\<lambda>cmd. map_option fst (execution_record fuel w cmd)) cmds)
   = (\<exists>cmd\<in>set cmds. \<exists>rc timed_out. execution_record fuel w cmd = Some (rc, timed_out) \<and> rc \<noteq> 0)"
proof -
  have "truthy (map_option fst r) = (\<exists>rc timed_out. r = Some (rc, timed_out) \<and> rc \<noteq> 0)"
    for r :: "(int \<times> bool) option"
    by (cases r) auto
  then show ?thesis by (simp add: py_any_def list_ex_iff)
qed

lemma run_once_on_flag:
  assumes "list_all (returns fuel w) cmds"
  shows "map_option fst (run_once_on cmds fuel a w)
         = Some (\<exists>cmd\<in>set cmds. \<exists>rc timed_out.
                   execution_record fuel w cmd = Some (rc, timed_out) \<and> rc \<noteq> 0)"
proof -
  from execute_all_results[OF assms, of a] obtain w' where
    "execute_all fuel cmds a w
       = Some (map (\<lambda>cmd. map_option fst (execution_record fuel w cmd)) cmds, w')" by blast
  then show ?thesis
    by (simp add: run_once_on_def Let_def py_any_records)
qed




section \<open>Example worlds\<close>

text \<open>Concrete processes and worlds on which the theorems below are instantiated:
  a process that exits at once with a given code, and one that runs until it is sent
  the termination signal and then exits with code 0. Their passes of the liveness
  loop take a little more than the two seconds slept, so that pass \<open>j\<close> reads a time
  between \<open>2 * j\<close> and \<open>2 * j + 1\<close> seconds: the pass after 10800 sleeps is the first
  one later than \<open>RUN_TIMEOUT\<close>.\<close>

definition exits :: "int \<Rightarrow> process" where
  "exits rc = \<lparr>poll = (\<lambda>j k. Some rc), elapsed = (\<lambda>j. 2 * j + 1),
               out = ''some output'', err = ''some error''\<rparr>"

definition polite :: process where
  "polite = \<lparr>poll = (\<lambda>j k. if k = 0 then None else Some 0), elapsed = (\<lambda>j. 2 * j + 1),
              out = [], err = []\<rparr>"

definition base_world :: world where
  "base_world =
     \<lparr>gcs = [], R8_TEST_RESULTS_BUCKET = ''r8-test-results'', HEAD = ''abc'',
      git_dirty = False, master_tip = ''abc'',
      commits = (\<lambda>r. if r = ''abc'' then Some ''abc'' else None),
      script_at = (\<lambda>sha. ''v1''), own_file = ''v1'',
      programs = (\<lambda>cmd. exits 0), clock = 0, trace = [], states = []\<rparr>"

definition polite_world :: world where
  "polite_world = base_world\<lparr>programs := (\<lambda>cmd. polite)\<rparr>"

definition gradle_fails_world :: world where
  "gradle_fails_world =
     base_world\<lparr>programs := (\<lambda>cmd. if cmd = [''tools/gradle.py'', ''r8lib''] then exits 2 else exits 0)\<rparr>"

section \<open>Run Sequencer: the aggregate failure flag\<close>

lemma late_polite: "late polite i \<longleftrightarrow> 10800 \<le> i"
  by (auto simp: late_def polite_def RUN_TIMEOUT_def)

lemma terminate_calls_polite: "terminate_calls polite j = j - 10800"
  by (rule terminate_calls_threshold) (rule late_polite)

lemma observed_polite: "observed polite j = (if j \<le> 10800 then None else Some 0)"
  by (simp add: observed_def terminate_calls_polite) (simp add: polite_def)

lemma wait_for_polite: "wait_for 10802 polite 0 0 False = Some (0, True, 10801, 1)"
  using wait_for_first_exit[of polite 10801 0 10802]
  by (simp add: observed_polite terminate_calls_polite)

lemma record_polite:
  "cmd \<noteq> [] \<Longrightarrow> execution_record 10802 polite_world cmd = Some (0, True)"
  by (simp add: execution_record_def polite_world_def wait_for_polite)

lemma returns_polite: "returns 10802 polite_world cmd"
  by (simp add: returns_def polite_world_def wait_for_polite)

text \<open>
  C1 (as amended). For every list of commands each of which returns within the bound
  on polls, \<open>run_once\<close> returns, and its flag is true iff some non-empty command's
  Execution Record has a non-zero exit code. The timed-out flag of a record plays no
  part: the flag is \<open>any\<close> over the exit codes that \<open>execute\<close> returns.
\<close>

theorem run_once_flag:
  assumes "list_all (returns fuel w) cmds"
  shows "map_option fst (run_once_on cmds fuel arch w)
         = Some (\<exists>cmd\<in>set cmds. \<exists>rc timed_out.
                   execution_record fuel w cmd = Some (rc, timed_out) \<and> rc \<noteq> 0)"
  using assms by (rule run_once_on_flag)

text \<open>
  C1 as stated fails: when every command of \<open>TEST_COMMANDS\<close> runs past the timeout and
  exits with code 0 on the termination signal, every Execution Record has
  timed-out = true and the flag of \<open>run_once\<close> is false.
\<close>

theorem run_once_flag_counterexample:
  "map_option fst (run_once 10802 False polite_world) = Some False
   \<and> execution_record 10802 polite_world [''tools/gradle.py'', ''r8lib''] = Some (0, True)
   \<and> [''tools/gradle.py'', ''r8lib''] \<in> set TEST_COMMANDS"
proof -
  have "list_all (returns 10802 polite_world) TEST_COMMANDS"
    by (simp add: list_all_iff returns_polite)
  from run_once_on_flag[OF this, of False]
  have f: "map_option fst (run_once 10802 False polite_world)
        = Some (\<exists>cmd\<in>set TEST_COMMANDS. \<exists>rc timed_out.
                   execution_record 10802 polite_world cmd = Some (rc, timed_out) \<and> rc \<noteq> 0)"
    by (simp only: run_once_def)
  have "execution_record 10802 polite_world cmd = Some (rc, timed_out) \<Longrightarrow> rc = 0"
    for cmd rc timed_out
    by (cases "cmd = []") (simp_all add: record_polite, simp add: execution_record_def)
  then have n: "(\<exists>cmd\<in>set TEST_COMMANDS. \<exists>rc timed_out.
                   execution_record 10802 polite_world cmd = Some (rc, timed_out) \<and> rc \<noteq> 0) = False"
    by blast
  have m: "[''tools/gradle.py'', ''r8lib''] \<in> set TEST_COMMANDS"
    by (simp add: TEST_COMMANDS_def)
  show ?thesis
    using f m unfolding n by (simp only: record_polite simp_thms list.distinct not_False_eq_True)
qed

theorem run_once_flag_witness:
  "list_all (returns 1 gradle_fails_world) TEST_COMMANDS
   \<and> map_option fst (run_once 1 True gradle_fails_world) = Some True"
proof -
  have h: "list_all (returns 1 gradle_fails_world) TEST_COMMANDS"
    by (auto simp: list_all_iff returns_def gradle_fails_world_def exits_def)
  have "execution_record 1 gradle_fails_world [''tools/gradle.py'', ''r8lib''] = Some (2, False)"
    by (simp add: execution_record_def gradle_fails_world_def exits_def)
  moreover have "[''tools/gradle.py'', ''r8lib''] \<in> set TEST_COMMANDS"
    by (simp add: TEST_COMMANDS_def)
  ultimately have "(\<exists>cmd\<in>set TEST_COMMANDS. \<exists>rc timed_out.
      execution_record 1 gradle_fails_world cmd = Some (rc, timed_out) \<and> rc \<noteq> 0) = True"
    by (intro eqTrueI bexI[of _ "[''tools/gradle.py'', ''r8lib'']"]) auto
  with run_once_flag[OF h, of True] h show ?thesis
    by (simp only: run_once_def simp_thms)
qed


section \<open>Command Runner: the timeout\<close>

lemma execute_first_exit:
  assumes "cmd \<noteq> []" and "observed (programs w cmd) j = Some rc"
    and "\<And>i. i < j \<Longrightarrow> observed (programs w cmd) i = None" and "j < fuel"
  shows "execute fuel cmd a w
           = Some (Some rc,
               (if rc = 0 then (\<lambda>v. v)
                else handle_output a (err (programs w cmd)) (out (programs w cmd)) rc
                       (0 < terminate_calls (programs w cmd) j) (join_with '' '' cmd))
                 (sleep (2 * j)
                    (w\<lparr>trace := trace w
                         @ Popen cmd # replicate (terminate_calls (programs w cmd) j) Terminate\<rparr>)))"
  using wait_for_first_exit[OF assms(2,3,4)] assms(1)
  by (simp add: execute_def Let_def emit_def)

text \<open>
  C3 (as amended). Let a command's process be seen exited for the first time at its
  \<open>j\<close>-th poll, with return code \<open>rc\<close>, after some pass of the liveness loop has read
  a time later than \<open>RUN_TIMEOUT\<close> while the process was still running. Then
  \<open>execute\<close> returns \<open>rc\<close>; it has called \<open>popen.terminate()\<close> once in every pass that
  read a time later than \<open>RUN_TIMEOUT\<close>, at least once, and has done nothing else
  before the process exited; the Execution Record has timed-out = true. When \<open>rc\<close> is
  0 nothing is archived or printed for the command (the store and the list of its
  states are as before); otherwise the record goes to \<open>handle_output\<close> with
  timed-out = true. The aggregate flag of a run of this command is true exactly when
  \<open>rc\<close> is not 0.
\<close>

theorem execute_timed_out:
  assumes "cmd \<noteq> []"
    and "observed (programs w cmd) j = Some rc"
    and "\<forall>i<j. observed (programs w cmd) i = None"
    and "\<exists>i<j. RUN_TIMEOUT < elapsed (programs w cmd) i"
    and "j < fuel"
  shows "execute fuel cmd arch w
           = Some (Some rc,
               (if rc = 0 then (\<lambda>v. v)
                else handle_output arch (err (programs w cmd)) (out (programs w cmd)) rc True
                       (join_with '' '' cmd))
                 (sleep (2 * j)
                    (w\<lparr>trace := trace w
                         @ Popen cmd # replicate (terminate_calls (programs w cmd) j) Terminate\<rparr>)))
       \<and> terminate_calls (programs w cmd) j
           = length (filter (\<lambda>i. RUN_TIMEOUT < elapsed (programs w cmd) i) [0..<j])
       \<and> 0 < terminate_calls (programs w cmd) j
       \<and> execution_record fuel w cmd = Some (rc, True)
       \<and> (rc = 0 \<longrightarrow> map_option (\<lambda>(r, w'). (gcs w', states w')) (execute fuel cmd arch w)
                        = Some (gcs w, states w))
       \<and> map_option fst (run_once_on [cmd] fuel arch w) = Some (rc \<noteq> 0)"
proof -
  let ?p = "programs w cmd"
  have none: "\<And>i. i < j \<Longrightarrow> observed ?p i = None"
    using assms(3) by blast
  have pos: "0 < terminate_calls ?p j"
    using assms(4) by (simp add: terminate_calls_pos late_def)
  have cnt: "terminate_calls ?p j = length (filter (\<lambda>i. RUN_TIMEOUT < elapsed ?p i) [0..<j])"
    by (simp add: terminate_calls_def late_def[abs_def])
  have wf: "wait_for fuel ?p 0 0 False = Some (rc, True, j, terminate_calls ?p j)"
    using wait_for_first_exit[OF assms(2) none assms(5)] pos by simp
  have rec: "execution_record fuel w cmd = Some (rc, True)"
    using assms(1) wf by (simp add: execution_record_def)
  have ex: "execute fuel cmd arch w
           = Some (Some rc,
               (if rc = 0 then (\<lambda>v. v)
                else handle_output arch (err ?p) (out ?p) rc True (join_with '' '' cmd))
                 (sleep (2 * j)
                    (w\<lparr>trace := trace w @ Popen cmd # replicate (terminate_calls ?p j) Terminate\<rparr>)))"
    using execute_first_exit[OF assms(1,2) none assms(5), of arch] pos by simp
  have quiet0: "rc = 0 \<longrightarrow> map_option (\<lambda>(r, w'). (gcs w', states w')) (execute fuel cmd arch w)
                        = Some (gcs w, states w)"
    unfolding ex by (simp add: sleep_def)
  have "returns fuel w cmd" using wf by (simp add: returns_def)
  then have "list_all (returns fuel w) [cmd]" by simp
  from run_once_on_flag[OF this, of arch]
  have "map_option fst (run_once_on [cmd] fuel arch w)
        = Some (\<exists>c\<in>set [cmd]. \<exists>rc' timed_out.
                  execution_record fuel w c = Some (rc', timed_out) \<and> rc' \<noteq> 0)" .
  moreover have "(\<exists>c\<in>set [cmd]. \<exists>rc' timed_out.
                  execution_record fuel w c = Some (rc', timed_out) \<and> rc' \<noteq> 0) = (rc \<noteq> 0)"
    using rec by auto
  ultimately have flag: "map_option fst (run_once_on [cmd] fuel arch w) = Some (rc \<noteq> 0)"
    by (simp only:)
  from ex cnt pos rec quiet0 flag show ?thesis by (intro conjI)
qed

theorem execute_timed_out_witness:
  "observed (programs polite_world [''tools/gradle.py'', ''r8lib'']) 10801 = Some 0
   \<and> RUN_TIMEOUT < elapsed (programs polite_world [''tools/gradle.py'', ''r8lib'']) 10800
   \<and> execute 10802 [''tools/gradle.py'', ''r8lib''] True polite_world
       = Some (Some 0, sleep 21602 (polite_world\<lparr>trace := trace polite_world
              @ [Popen [''tools/gradle.py'', ''r8lib''], Terminate]\<rparr>))
   \<and> execution_record 10802 polite_world [''tools/gradle.py'', ''r8lib''] = Some (0, True)
   \<and> map_option fst (run_once_on [[''tools/gradle.py'', ''r8lib'']] 10802 True polite_world)
       = Some False"
proof -
  have p: "programs polite_world [''tools/gradle.py'', ''r8lib''] = polite"
    by (simp add: polite_world_def)
  have a: "observed (programs polite_world [''tools/gradle.py'', ''r8lib'']) 10801 = Some 0"
    by (simp add: p observed_polite)
  have b: "\<forall>i<10801. observed (programs polite_world [''tools/gradle.py'', ''r8lib'']) i = None"
    by (simp add: p observed_polite)
  have l: "RUN_TIMEOUT < elapsed (programs polite_world [''tools/gradle.py'', ''r8lib'']) 10800"
    by (simp add: p polite_def RUN_TIMEOUT_def)
  then have c: "\<exists>i<10801. RUN_TIMEOUT < elapsed (programs polite_world [''tools/gradle.py'', ''r8lib'']) i"
    by (intro exI[of _ 10800]) simp
  have d: "[''tools/gradle.py'', ''r8lib''] \<noteq> []" by simp
  have e: "(10801 :: nat) < 10802" by simp
  from execute_timed_out[OF d a b c e, of True] a l show ?thesis
    by (simp add: p terminate_calls_polite)
qed

text \<open>
  C3 as stated fails: a command that runs past the timeout and exits with code 0 on
  the termination signal has timed-out = true in its Execution Record, yet \<open>execute\<close>
  returns 0, nothing is archived for it, and the aggregate flag of a run of this one
  command is false.
\<close>

theorem execute_timed_out_counterexample:
  "execution_record 10802 polite_world [''tools/test.py'', ''--only_internal''] = Some (0, True)
   \<and> map_option fst (execute 10802 [''tools/test.py'', ''--only_internal''] True polite_world)
       = Some (Some 0)
   \<and> map_option (\<lambda>(r, w'). gcs w') (execute 10802 [''tools/test.py'', ''--only_internal''] True polite_world)
       = Some []
   \<and> map_option fst (run_once_on [[''tools/test.py'', ''--only_internal'']] 10802 True polite_world)
       = Some False"
proof -
  have e: "execute 10802 [''tools/test.py'', ''--only_internal''] True polite_world
        = Some (Some 0, sleep 21602 (polite_world\<lparr>trace := trace polite_world
              @ [Popen [''tools/test.py'', ''--only_internal''], Terminate]\<rparr>))"
    by (simp add: execute_def Let_def emit_def wait_for_polite polite_world_def)
  have g: "gcs (sleep 21602 (polite_world\<lparr>trace := trace polite_world
              @ [Popen [''tools/test.py'', ''--only_internal''], Terminate]\<rparr>)) = []"
    by (simp add: sleep_def polite_world_def base_world_def)
  have r: "execution_record 10802 polite_world [''tools/test.py'', ''--only_internal''] = Some (0, True)"
    by (simp add: record_polite)
  have "list_all (returns 10802 polite_world) [[''tools/test.py'', ''--only_internal'']]"
    by (simp add: returns_polite)
  from run_once_on_flag[OF this, of True]
  have f: "map_option fst (run_once_on [[''tools/test.py'', ''--only_internal'']] 10802 True polite_world)
       = Some False"
    unfolding list.set bex_simps r by simp
  show ?thesis unfolding e using g r f by simp
qed




section \<open>Effects of one pass of the consumer loop\<close>

text \<open>
  Events are sorted into self-update checks (\<open>is_check\<close>) and effects on the outside
  (\<open>is_effect\<close>: store writes and deletes, starting or terminating a command, the
  gradle stop); a list of events with neither is \<open>quiet\<close> (reads of the store, git
  commands).
\<close>

fun is_check :: "event \<Rightarrow> bool" where
  "is_check RestartCheck = True"
| "is_check ExecvSelf = True"
| "is_check _ = False"

fun is_effect :: "event \<Rightarrow> bool" where
  "is_effect (BlobPut k v) = True"
| "is_effect (BlobDelete k) = True"
| "is_effect (Popen c) = True"
| "is_effect Terminate = True"
| "is_effect GradleStop = True"
| "is_effect _ = False"

definition quiet :: "event list \<Rightarrow> bool" where
  "quiet es = list_all (\<lambda>e. \<not> is_check e \<and> \<not> is_effect e) es"

lemma quiet_simps [simp]:
  "quiet []" "quiet (es @ fs) = (quiet es \<and> quiet fs)"
  "quiet (e # es) = (\<not> is_check e \<and> \<not> is_effect e \<and> quiet es)"
  by (auto simp: quiet_def)

lemma path_updates [simp]:
  "get_test_result_dir (trace_update f w) = get_test_result_dir w"
  "get_test_result_dir (gcs_update g w) = get_test_result_dir w"
  "get_test_result_dir (states_update h w) = get_test_result_dir w"
  "get_test_result_dir (clock_update c w) = get_test_result_dir w"
  "get_test_result_dir (HEAD_update hh w) = get_test_result_dir w"
  "get_test_result_dir (own_file_update oo w) = get_test_result_dir w"
  by (simp_all add: get_test_result_dir_def)

lemma sha_destination_updates [simp]:
  "get_sha_destination sha (trace_update f w) = get_sha_destination sha w"
  "get_sha_destination sha (gcs_update g w) = get_sha_destination sha w"
  "get_sha_destination sha (states_update h w) = get_sha_destination sha w"
  "get_sha_destination sha (clock_update c w) = get_sha_destination sha w"
  "get_sha_destination sha (HEAD_update hh w) = get_sha_destination sha w"
  "get_sha_destination sha (own_file_update oo w) = get_sha_destination sha w"
  by (simp_all add: get_sha_destination_def)

lemma magic_base_updates [simp]:
  "get_magic_file_base_path (trace_update f w) = get_magic_file_base_path w"
  "get_magic_file_base_path (gcs_update g w) = get_magic_file_base_path w"
  "get_magic_file_base_path (states_update h w) = get_magic_file_base_path w"
  "get_magic_file_base_path (clock_update c w) = get_magic_file_base_path w"
  "get_magic_file_base_path (HEAD_update hh w) = get_magic_file_base_path w"
  "get_magic_file_base_path (own_file_update oo w) = get_magic_file_base_path w"
  by (simp_all add: get_magic_file_base_path_def)

lemma magic_path_updates [simp]:
  "get_magic_file_gs_path m (trace_update f w) = get_magic_file_gs_path m w"
  "get_magic_file_gs_path m (gcs_update g w) = get_magic_file_gs_path m w"
  "get_magic_file_gs_path m (states_update h w) = get_magic_file_gs_path m w"
  "get_magic_file_gs_path m (clock_update c w) = get_magic_file_gs_path m w"
  "get_magic_file_gs_path m (HEAD_update hh w) = get_magic_file_gs_path m w"
  "get_magic_file_gs_path m (own_file_update oo w) = get_magic_file_gs_path m w"
  by (simp_all add: get_magic_file_gs_path_def)

lemma restart_if_new_version_eq:
  "restart_if_new_version oc w =
     (if own_file w \<noteq> oc then (Inl Execv, w\<lparr>trace := trace w @ [RestartCheck, ExecvSelf]\<rparr>)
      else (Inr (), w\<lparr>trace := trace w @ [RestartCheck]\<rparr>))"
  by (simp add: restart_if_new_version_def get_own_file_content_def emit_def Let_def)

lemma get_magic_file_exists_eq:
  "get_magic_file_exists m w =
     (map_of (gcs w) (get_magic_file_gs_path m w) \<noteq> None,
      w\<lparr>trace := trace w @ [BlobExists (get_magic_file_gs_path m w)]\<rparr>)"
  by (simp add: get_magic_file_exists_def file_exists_on_cloud_storage_def emit_def)

lemma get_magic_file_content_eq:
  "get_magic_file_content m ig w =
     ((case map_of (gcs w) (get_magic_file_gs_path m w) of
         Some c \<Rightarrow> Inr c
       | None \<Rightarrow> if ig then Inr [] else Inl (Raised ''CalledProcessError'')),
      w\<lparr>trace := trace w @ [BlobCat (get_magic_file_gs_path m w)]\<rparr>)"
  by (simp add: get_magic_file_content_def cat_file_on_cloud_storage_def emit_def
      split: option.splits)

lemma print_magic_files_reads:
  "\<exists>es. print_magic_files ms w = w\<lparr>trace := trace w @ es\<rparr> \<and> quiet es"
proof (induction ms arbitrary: w)
  case Nil
  have "w = w\<lparr>trace := trace w @ []\<rparr>" by simp
  then show ?case by (metis print_magic_files.simps(1) quiet_simps(1))
next
  case (Cons m ms)
  let ?p = "get_magic_file_gs_path m w"
  show ?case
  proof (cases "map_of (gcs w) ?p \<noteq> None")
    case True
    let ?w1 = "w\<lparr>trace := trace w @ [BlobExists ?p, BlobCat ?p]\<rparr>"
    from Cons.IH[of ?w1] obtain es where
      es: "print_magic_files ms ?w1 = ?w1\<lparr>trace := trace ?w1 @ es\<rparr>" "quiet es" by blast
    have "print_magic_files (m # ms) w = w\<lparr>trace := trace w @ ([BlobExists ?p, BlobCat ?p] @ es)\<rparr>"
      using True es(1) by (simp add: get_magic_file_exists_eq get_magic_file_content_eq)
    moreover have "quiet ([BlobExists ?p, BlobCat ?p] @ es)" using es(2) by simp
    ultimately show ?thesis by blast
  next
    case False
    let ?w1 = "w\<lparr>trace := trace w @ [BlobExists ?p]\<rparr>"
    from Cons.IH[of ?w1] obtain es where
      es: "print_magic_files ms ?w1 = ?w1\<lparr>trace := trace ?w1 @ es\<rparr>" "quiet es" by blast
    have "print_magic_files (m # ms) w = w\<lparr>trace := trace w @ ([BlobExists ?p] @ es)\<rparr>"
      using False es(1) by (simp add: get_magic_file_exists_eq)
    moreover have "quiet ([BlobExists ?p] @ es)" using es(2) by simp
    ultimately show ?thesis by blast
  qed
qed

lemma print_magic_file_state_reads:
  "\<exists>es. print_magic_file_state w = w\<lparr>trace := trace w @ es\<rparr> \<and> quiet es"
  unfolding print_magic_file_state_def by (rule print_magic_files_reads)

lemma git_checkout_eq:
  "git_checkout h w =
     (if git_dirty w then (Inl (SysExit 1), w)
      else (case commits w h of
              None \<Rightarrow> (Inr None,
                 w\<lparr>HEAD := master_tip w, own_file := script_at w (master_tip w),
                   trace := trace w @ [GitPull, GitCheckout h]\<rparr>)
            | Some sha \<Rightarrow> (Inr (Some sha),
                 w\<lparr>HEAD := sha, own_file := script_at w sha,
                   trace := trace w @ [GitPull, GitCheckout h]\<rparr>)))"
  by (simp add: git_checkout_def git_pull_def ensure_git_clean_def emit_def Let_def
      get_HEAD_sha1_def split: option.splits)


text \<open>
  \<open>same_env\<close>: the parts of the world no function of the script changes.
  \<open>magic_view w s\<close> is the content of the three Signal Blobs in store \<open>s\<close>, in the
  order \<open>OFFERED\<close>, \<open>CLAIMED\<close>, \<open>FINISHED\<close> of \<open>ALL_MAGIC\<close>. \<open>runs_from w w'\<close>
  says what a run of commands may have done between \<open>w\<close> and \<open>w'\<close>: events of the
  Command Runner only, and store states that all show the Signal Blobs as \<open>w\<close> has
  them.
\<close>

definition same_env :: "world \<Rightarrow> world \<Rightarrow> bool" where
  "same_env w w' =
     (R8_TEST_RESULTS_BUCKET w' = R8_TEST_RESULTS_BUCKET w \<and> git_dirty w' = git_dirty w \<and>
      master_tip w' = master_tip w \<and> commits w' = commits w \<and> script_at w' = script_at w \<and>
      programs w' = programs w)"

definition magic_view :: "world \<Rightarrow> store \<Rightarrow> string option list" where
  "magic_view w s = map (\<lambda>m. map_of s (get_magic_file_gs_path m w)) ALL_MAGIC"

fun runner_event :: "event \<Rightarrow> bool" where
  "runner_event (Popen c) = True"
| "runner_event Terminate = True"
| "runner_event GradleStop = True"
| "runner_event (Print s) = True"
| "runner_event (BlobPut k v) = True"
| "runner_event _ = False"

definition runs_from :: "world \<Rightarrow> world \<Rightarrow> bool" where
  "runs_from w w' =
     (same_env w w' \<and> HEAD w' = HEAD w \<and> own_file w' = own_file w \<and>
      (\<exists>es. trace w' = trace w @ es \<and> list_all runner_event es) \<and>
      (\<exists>ss. states w' = states w @ ss \<and> list_all (\<lambda>s. magic_view w s = magic_view w (gcs w)) ss) \<and>
      magic_view w (gcs w') = magic_view w (gcs w))"

lemma same_env_paths:
  assumes "same_env w w'"
  shows "get_test_result_dir w' = get_test_result_dir w"
    and "get_sha_destination sha w' = get_sha_destination sha w"
    and "get_magic_file_base_path w' = get_magic_file_base_path w"
    and "get_magic_file_gs_path m w' = get_magic_file_gs_path m w"
    and "magic_view w' = magic_view w"
  using assms
  by (simp_all add: same_env_def get_test_result_dir_def get_sha_destination_def
      get_magic_file_base_path_def get_magic_file_gs_path_def magic_view_def fun_eq_iff)

lemma same_env_refl [simp]: "same_env w w"
  by (simp add: same_env_def)

lemma same_env_trans: "same_env w w1 \<Longrightarrow> same_env w1 w2 \<Longrightarrow> same_env w w2"
  by (simp add: same_env_def)

lemma runs_from_refl [simp]: "runs_from w w"
  by (simp add: runs_from_def)

lemma runs_from_trans:
  assumes "runs_from w w1" and "runs_from w1 w2"
  shows "runs_from w w2"
proof -
  from assms(1) obtain es ss where 1:
    "same_env w w1" "HEAD w1 = HEAD w" "own_file w1 = own_file w"
    "trace w1 = trace w @ es" "list_all runner_event es"
    "states w1 = states w @ ss" "list_all (\<lambda>s. magic_view w s = magic_view w (gcs w)) ss"
    "magic_view w (gcs w1) = magic_view w (gcs w)"
    unfolding runs_from_def by blast
  from assms(2) obtain es' ss' where 2:
    "same_env w1 w2" "HEAD w2 = HEAD w1" "own_file w2 = own_file w1"
    "trace w2 = trace w1 @ es'" "list_all runner_event es'"
    "states w2 = states w1 @ ss'" "list_all (\<lambda>s. magic_view w1 s = magic_view w1 (gcs w1)) ss'"
    "magic_view w1 (gcs w2) = magic_view w1 (gcs w1)"
    unfolding runs_from_def by blast
  have mv: "magic_view w1 = magic_view w" using 1(1) by (rule same_env_paths)
  have a: "same_env w w2" using 1(1) 2(1) by (rule same_env_trans)
  have b: "trace w2 = trace w @ (es @ es')" "list_all runner_event (es @ es')"
    using 1 2 by simp_all
  have c: "states w2 = states w @ (ss @ ss')"
    "list_all (\<lambda>s. magic_view w s = magic_view w (gcs w)) (ss @ ss')"
    using 1 2 by (simp_all add: mv)
  have d: "magic_view w (gcs w2) = magic_view w (gcs w)"
    using 1(8) 2(8) by (simp add: mv)
  show ?thesis
    unfolding runs_from_def using a b c d 1(2,3) 2(2,3) by metis
qed

definition log_field :: "string \<Rightarrow> bool" where
  "log_field f = (f \<in> {EXITCODE, TIMED_OUT, STDOUT, STDERR, ''status''})"

lemma magic_ne_log:
  assumes "log_field f" and "m \<in> set ALL_MAGIC"
  shows "get_magic_file_gs_path m w \<noteq> d @ ''/'' @ f"
proof
  assume "get_magic_file_gs_path m w = d @ ''/'' @ f"
  then have "last (get_magic_file_gs_path m w) = last (d @ ''/'' @ f)" by simp
  moreover have "last (get_magic_file_gs_path m w) \<in> {CHR ''G'', CHR ''E''}"
    using assms(2)
    by (auto simp: get_magic_file_gs_path_def ALL_MAGIC_def READY_FOR_TESTING_def TESTING_def
        TESTING_COMPLETE_def)
  moreover have "last (d @ ''/'' @ f) \<in> {CHR ''e'', CHR ''t'', CHR ''r'', CHR ''s''}"
    using assms(1)
    by (auto simp: log_field_def EXITCODE_def TIMED_OUT_def STDOUT_def STDERR_def)
  ultimately show False by auto
qed

lemma magic_view_put_log:
  "log_field f \<Longrightarrow> magic_view w (AList.update (d @ ''/'' @ f) v s) = magic_view w s"
  using magic_ne_log[of f _ w d]
  by (simp add: magic_view_def update_conv')

lemma runs_from_put_log:
  assumes "log_field f"
  shows "runs_from w (store_put (d @ ''/'' @ f) v w)"
  using magic_view_put_log[OF assms]
  by (simp add: runs_from_def store_put_def Let_def same_env_def)

lemma runs_from_emit: "runner_event e \<Longrightarrow> runs_from w (emit e w)"
  by (simp add: runs_from_def emit_def same_env_def)

lemma runs_from_sleep: "runs_from w (sleep d w)"
  by (simp add: runs_from_def sleep_def same_env_def)

lemma runs_from_terminates:
  "runs_from w (w\<lparr>trace := trace w @ replicate k Terminate\<rparr>)"
  by (simp add: runs_from_def same_env_def list_all_iff)

lemma runs_from_archive_log: "runs_from w (archive_log so se rc timed_out cmd w)"
proof -
  have f: "log_field EXITCODE" "log_field TIMED_OUT" "log_field STDOUT" "log_field STDERR"
    by (simp_all add: log_field_def)
  show ?thesis
    unfolding archive_log_def Let_def archive_value_def archive_file_def
    by (intro runs_from_trans[OF runs_from_trans[OF runs_from_trans[OF runs_from_put_log
          runs_from_put_log] runs_from_put_log] runs_from_put_log] f)
qed

lemma runs_from_archive_status: "runs_from w (archive_status n w)"
  unfolding archive_status_def Let_def archive_value_def archive_file_def
  by (rule runs_from_put_log) (simp add: log_field_def)

lemma runs_from_handle_output: "runs_from w (handle_output a se so rc timed_out cmd w)"
proof (cases a)
  case True
  then show ?thesis by (simp add: handle_output_def runs_from_archive_log)
next
  case False
  have p: "runner_event (Print s)" for s by simp
  show ?thesis
    using False unfolding handle_output_def Let_def
    by (simp only: if_False)
       (intro runs_from_trans[OF runs_from_trans[OF runs_from_trans[OF runs_from_trans[OF
          runs_from_emit runs_from_emit] runs_from_emit] runs_from_emit] runs_from_emit] p)
qed

lemma runs_from_execute:
  assumes "execute fuel cmd a w = Some (r, w')"
  shows "runs_from w w'"
proof (cases "cmd = []")
  case True
  with assms show ?thesis by (simp add: execute_def)
next
  case False
  with assms obtain rc timed_out t k where
    wf: "wait_for fuel (programs w cmd) 0 0 False = Some (rc, timed_out, t, k)"
    by (cases "wait_for fuel (programs w cmd) 0 0 False") (auto simp: execute_def Let_def)
  let ?w1 = "emit (Popen cmd) w"
  let ?w2 = "?w1\<lparr>trace := trace ?w1 @ replicate k Terminate\<rparr>"
  let ?w3 = "sleep (2 * t) ?w2"
  have 3: "runs_from w ?w3"
    by (intro runs_from_trans[OF runs_from_trans[OF runs_from_emit runs_from_terminates]
          runs_from_sleep]) simp
  have w': "w' = (if rc \<noteq> 0 then handle_output a (err (programs w cmd)) (out (programs w cmd)) rc
                     timed_out (join_with '' '' cmd) ?w3 else ?w3)"
    using assms False wf by (simp add: execute_def Let_def)
  show ?thesis
  proof (cases "rc = 0")
    case True
    with w' 3 show ?thesis by simp
  next
    case False
    with w' have "w' = handle_output a (err (programs w cmd)) (out (programs w cmd)) rc
                     timed_out (join_with '' '' cmd) ?w3" by simp
    with 3 runs_from_handle_output show ?thesis by (metis runs_from_trans)
  qed
qed

lemma runs_from_execute_all:
  "execute_all fuel cmds a w = Some (rs, w') \<Longrightarrow> runs_from w w'"
proof (induction cmds arbitrary: w rs)
  case Nil
  then show ?case by simp
next
  case (Cons cmd cmds)
  from Cons.prems obtain r w1 rs' where
    1: "execute fuel cmd a w = Some (r, w1)" and 2: "execute_all fuel cmds a w1 = Some (rs', w')"
    by (auto split: option.splits)
  from runs_from_execute[OF 1] Cons.IH[OF 2] show ?case by (rule runs_from_trans)
qed

lemma runs_from_run_once_on:
  assumes "run_once_on cmds fuel a w = Some (failed, w')"
  shows "runs_from w w'"
proof -
  from assms obtain rs w1 where
    1: "execute_all fuel cmds a w = Some (rs, w1)"
    and w': "w' = archive_status (if py_any rs then 1 else 0) (emit GradleStop w1)"
    by (auto simp: run_once_on_def Let_def split: option.splits)
  have "runs_from w1 w'"
    unfolding w' by (intro runs_from_trans[OF runs_from_emit runs_from_archive_status]) simp
  with runs_from_execute_all[OF 1] show ?thesis by (rule runs_from_trans)
qed


text \<open>The pass of \<open>run_continuously\<close>, branch by branch, with its effects written out;
  \<open>es\<close> are the reads of \<open>print_magic_file_state\<close>.\<close>

lemma iteration_eq:
  "\<exists>es. quiet es \<and> iteration fuel oc w =
    (if own_file w \<noteq> oc
     then Some (Inl Execv, w\<lparr>trace := trace w @ [RestartCheck, ExecvSelf]\<rparr>)
     else
       (let p = get_magic_file_gs_path READY_FOR_TESTING w in
        case map_of (gcs w) p of
          None \<Rightarrow>
            Some (Inr (), sleep PULL_DELAY (w\<lparr>trace := trace w @ RestartCheck # es @ [BlobExists p]\<rparr>))
        | Some h \<Rightarrow>
            if git_dirty w
            then Some (Inl (SysExit 1),
                   w\<lparr>trace := trace w @ RestartCheck # es @ [BlobExists p, BlobCat p]\<rparr>)
            else
              (let sha = (case commits w h of None \<Rightarrow> master_tip w | Some s \<Rightarrow> s);
                   W = w\<lparr>HEAD := sha, own_file := script_at w sha,
                         trace := trace w @ RestartCheck # es
                                    @ [BlobExists p, BlobCat p, GitPull, GitCheckout h]\<rparr>
               in if not_checked_out (commits w h)
                  then Some (Inr (),
                         delete_magic_file READY_FOR_TESTING
                           (put_magic_file TESTING_COMPLETE h (archive_status 0 W)))
                  else if script_at w sha \<noteq> oc
                  then Some (Inl Execv, W\<lparr>trace := trace W @ [RestartCheck, ExecvSelf]\<rparr>)
                  else if commits w h \<noteq> Some h
                  then Some (Inl (SysExit 1), W\<lparr>trace := trace W @ [RestartCheck]\<rparr>)
                  else
                    (case run_once fuel True
                            (delete_magic_file READY_FOR_TESTING
                               (put_magic_file TESTING h (W\<lparr>trace := trace W @ [RestartCheck]\<rparr>))) of
                       None \<Rightarrow> None
                     | Some (exitcode, w6) \<Rightarrow>
                         Some (Inr (),
                           sleep PULL_DELAY
                             (delete_magic_file TESTING
                                (put_magic_file TESTING_COMPLETE h w6)))))))"
proof -
  obtain es where es:
    "print_magic_file_state (w\<lparr>trace := trace w @ [RestartCheck]\<rparr>)
     = w\<lparr>trace := trace w @ [RestartCheck]\<rparr>\<lparr>trace := trace (w\<lparr>trace := trace w @ [RestartCheck]\<rparr>) @ es\<rparr>"
    "quiet es"
    using print_magic_file_state_reads by blast
  have "iteration fuel oc w = (if own_file w \<noteq> oc
     then Some (Inl Execv, w\<lparr>trace := trace w @ [RestartCheck, ExecvSelf]\<rparr>)
     else
       (let p = get_magic_file_gs_path READY_FOR_TESTING w in
        case map_of (gcs w) p of
          None \<Rightarrow>
            Some (Inr (), sleep PULL_DELAY (w\<lparr>trace := trace w @ RestartCheck # es @ [BlobExists p]\<rparr>))
        | Some h \<Rightarrow>
            if git_dirty w
            then Some (Inl (SysExit 1),
                   w\<lparr>trace := trace w @ RestartCheck # es @ [BlobExists p, BlobCat p]\<rparr>)
            else
              (let sha = (case commits w h of None \<Rightarrow> master_tip w | Some s \<Rightarrow> s);
                   W = w\<lparr>HEAD := sha, own_file := script_at w sha,
                         trace := trace w @ RestartCheck # es
                                    @ [BlobExists p, BlobCat p, GitPull, GitCheckout h]\<rparr>
               in if not_checked_out (commits w h)
                  then Some (Inr (),
                         delete_magic_file READY_FOR_TESTING
                           (put_magic_file TESTING_COMPLETE h (archive_status 0 W)))
                  else if script_at w sha \<noteq> oc
                  then Some (Inl Execv, W\<lparr>trace := trace W @ [RestartCheck, ExecvSelf]\<rparr>)
                  else if commits w h \<noteq> Some h
                  then Some (Inl (SysExit 1), W\<lparr>trace := trace W @ [RestartCheck]\<rparr>)
                  else
                    (case run_once fuel True
                            (delete_magic_file READY_FOR_TESTING
                               (put_magic_file TESTING h (W\<lparr>trace := trace W @ [RestartCheck]\<rparr>))) of
                       None \<Rightarrow> None
                     | Some (exitcode, w6) \<Rightarrow>
                         Some (Inr (),
                           sleep PULL_DELAY
                             (delete_magic_file TESTING
                                (put_magic_file TESTING_COMPLETE h w6)))))))"
    unfolding iteration_def
    by (auto simp: restart_if_new_version_eq es(1) get_magic_file_exists_eq
        get_magic_file_content_eq git_checkout_eq Let_def
        split: option.splits)
  with es(2) show ?thesis by blast
qed




text \<open>Worlds in which the consumer finds work: an offer of the checked-out revision,
  the same beside a stale \<open>TESTING_COMPLETE\<close>, and an offer of an identifier that
  cannot be checked out.\<close>

definition offered_world :: world where
  "offered_world =
     base_world\<lparr>gcs := [(''gs://r8-test-results/internal/magic/READY_FOR_TESTING'', ''abc'')]\<rparr>"


definition gerrit_world :: world where
  "gerrit_world =
     base_world\<lparr>gcs := [(''gs://r8-test-results/internal/magic/READY_FOR_TESTING'', ''c0ffee'')],
                  HEAD := ''m0'', master_tip := ''m1''\<rparr>"


lemma put_magic_file_eq:
  "put_magic_file m v w =
     w\<lparr>gcs := AList.update (get_magic_file_gs_path m w) v (gcs w),
       trace := trace w @ [BlobPut (get_magic_file_gs_path m w) v],
       states := states w @ [AList.update (get_magic_file_gs_path m w) v (gcs w)]\<rparr>"
  by (simp add: put_magic_file_def archive_value_def archive_file_def store_put_def Let_def
      get_magic_file_gs_path_def)

lemma delete_magic_file_eq:
  "delete_magic_file m w =
     w\<lparr>gcs := AList.delete (get_magic_file_gs_path m w) (gcs w),
       trace := trace w @ [BlobDelete (get_magic_file_gs_path m w)],
       states := states w @ [AList.delete (get_magic_file_gs_path m w) (gcs w)]\<rparr>"
  by (simp add: delete_magic_file_def delete_file_from_cloud_storage_def Let_def)

lemma magic_paths_distinct:
  "get_magic_file_gs_path READY_FOR_TESTING w \<noteq> get_magic_file_gs_path TESTING w"
  "get_magic_file_gs_path READY_FOR_TESTING w \<noteq> get_magic_file_gs_path TESTING_COMPLETE w"
  "get_magic_file_gs_path TESTING w \<noteq> get_magic_file_gs_path TESTING_COMPLETE w"
  "get_magic_file_gs_path TESTING w \<noteq> get_magic_file_gs_path READY_FOR_TESTING w"
  "get_magic_file_gs_path TESTING_COMPLETE w \<noteq> get_magic_file_gs_path READY_FOR_TESTING w"
  "get_magic_file_gs_path TESTING_COMPLETE w \<noteq> get_magic_file_gs_path TESTING w"
  by (simp_all add: get_magic_file_gs_path_def READY_FOR_TESTING_def TESTING_def
      TESTING_COMPLETE_def)

lemma magic_view_eq:
  "magic_view w s =
     [map_of s (get_magic_file_gs_path READY_FOR_TESTING w),
      map_of s (get_magic_file_gs_path TESTING w),
      map_of s (get_magic_file_gs_path TESTING_COMPLETE w)]"
  by (simp add: magic_view_def ALL_MAGIC_def)

text \<open>
  The pass that claims a work unit: \<open>OFFERED\<close> carries \<open>h\<close>, the checkout of \<open>h\<close>
  succeeds on revision \<open>h\<close>, and the script is unchanged. \<open>tail\<close> are the events of
  \<open>run_once\<close> and \<open>n\<close> the number of its store writes.
\<close>

lemma claim_pass:
  assumes "own_file w = oc"
    and "map_of (gcs w) (get_magic_file_gs_path READY_FOR_TESTING w) = Some h"
    and "\<not> git_dirty w" and "commits w h = Some h" and "h \<noteq> []" and "script_at w h = oc"
    and ret: "iteration fuel oc w = Some (r, w')"
  shows "\<exists>es tail n. quiet es \<and> list_all runner_event tail \<and> r = Inr () \<and>
     trace w' = trace w @ RestartCheck # es
        @ [BlobExists (get_magic_file_gs_path READY_FOR_TESTING w),
           BlobCat (get_magic_file_gs_path READY_FOR_TESTING w),
           GitPull, GitCheckout h, RestartCheck,
           BlobPut (get_magic_file_gs_path TESTING w) h,
           BlobDelete (get_magic_file_gs_path READY_FOR_TESTING w)]
        @ tail
        @ [BlobPut (get_magic_file_gs_path TESTING_COMPLETE w) h,
           BlobDelete (get_magic_file_gs_path TESTING w)] \<and>
     length (states w') = length (states w) + n + 4 \<and>
     states w' ! length (states w) = AList.update (get_magic_file_gs_path TESTING w) h (gcs w) \<and>
     map (magic_view w) (drop (length (states w)) (states w'))
       = [[Some h, Some h, map_of (gcs w) (get_magic_file_gs_path TESTING_COMPLETE w)],
          [None, Some h, map_of (gcs w) (get_magic_file_gs_path TESTING_COMPLETE w)]]
         @ replicate n [None, Some h, map_of (gcs w) (get_magic_file_gs_path TESTING_COMPLETE w)]
         @ [[None, Some h, Some h], [None, None, Some h]] \<and>
     magic_view w (gcs w') = [None, None, Some h] \<and> same_env w w'"
proof -
  let ?p = "get_magic_file_gs_path READY_FOR_TESTING w"
  let ?tp = "get_magic_file_gs_path TESTING w"
  let ?cp = "get_magic_file_gs_path TESTING_COMPLETE w"
  let ?c = "map_of (gcs w) ?cp"
  from iteration_eq[of fuel oc w] obtain es where es: "quiet es" and
    it: "iteration fuel oc w =
      (case run_once fuel True
              (delete_magic_file READY_FOR_TESTING
                 (put_magic_file TESTING h
                    (w\<lparr>HEAD := h, own_file := oc,
                       trace := trace w @ RestartCheck # es
                          @ [BlobExists ?p, BlobCat ?p, GitPull, GitCheckout h, RestartCheck]\<rparr>))) of
         None \<Rightarrow> None
       | Some (exitcode, w6) \<Rightarrow>
           Some (Inr (),
             sleep PULL_DELAY
               (delete_magic_file TESTING (put_magic_file TESTING_COMPLETE h w6))))"
    using assms(1-6) by (auto simp: Let_def)
  define Wc where "Wc = delete_magic_file READY_FOR_TESTING
                 (put_magic_file TESTING h
                    (w\<lparr>HEAD := h, own_file := oc,
                       trace := trace w @ RestartCheck # es
                          @ [BlobExists ?p, BlobCat ?p, GitPull, GitCheckout h, RestartCheck]\<rparr>))"
  from it ret obtain x w6 where run: "run_once fuel True Wc = Some (x, w6)"
    and r: "r = Inr ()"
    and w': "w' = sleep PULL_DELAY (delete_magic_file TESTING (put_magic_file TESTING_COMPLETE h w6))"
    unfolding Wc_def[symmetric] by (auto split: option.splits)
  have Wc_env: "same_env w Wc"
    by (simp add: Wc_def same_env_def put_magic_file_eq delete_magic_file_eq)
  have Wc_trace: "trace Wc = trace w @ RestartCheck # es
        @ [BlobExists ?p, BlobCat ?p, GitPull, GitCheckout h, RestartCheck,
           BlobPut ?tp h, BlobDelete ?p]"
    by (simp add: Wc_def put_magic_file_eq delete_magic_file_eq)
  have Wc_states: "states Wc = states w @ [AList.update ?tp h (gcs w),
        AList.delete ?p (AList.update ?tp h (gcs w))]"
    by (simp add: Wc_def put_magic_file_eq delete_magic_file_eq)
  have Wc_gcs: "gcs Wc = AList.delete ?p (AList.update ?tp h (gcs w))"
    by (simp add: Wc_def put_magic_file_eq delete_magic_file_eq)
  have Wc_view: "magic_view w (gcs Wc) = [None, Some h, ?c]"
    by (simp add: Wc_gcs magic_view_eq delete_conv' update_conv' magic_paths_distinct)
  have mvc: "magic_view Wc = magic_view w" using Wc_env by (rule same_env_paths)
  from runs_from_run_once_on[OF run[unfolded run_once_def]] obtain tail ss where
    env6: "same_env Wc w6" and tail: "trace w6 = trace Wc @ tail" "list_all runner_event tail"
    and ss: "states w6 = states Wc @ ss" "list_all (\<lambda>s. magic_view w s = [None, Some h, ?c]) ss"
    and view6: "magic_view w (gcs w6) = [None, Some h, ?c]"
    unfolding runs_from_def mvc Wc_view by blast
  have env: "same_env w w6" using Wc_env env6 by (rule same_env_trans)
  have p6: "get_magic_file_gs_path m w6 = get_magic_file_gs_path m w" for m
    using env by (rule same_env_paths)
  have tr: "trace w' = trace w6 @ [BlobPut ?cp h, BlobDelete ?tp]"
    by (simp add: w' sleep_def put_magic_file_eq delete_magic_file_eq p6)
  have st: "states w' = states w6 @ [AList.update ?cp h (gcs w6),
              AList.delete ?tp (AList.update ?cp h (gcs w6))]"
    by (simp add: w' sleep_def put_magic_file_eq delete_magic_file_eq p6)
  have g: "gcs w' = AList.delete ?tp (AList.update ?cp h (gcs w6))"
    by (simp add: w' sleep_def put_magic_file_eq delete_magic_file_eq p6)
  have v6: "map_of (gcs w6) ?p = None" "map_of (gcs w6) ?tp = Some h"
    using view6 by (simp_all add: magic_view_eq)
  have v3: "magic_view w (AList.update ?cp h (gcs w6)) = [None, Some h, Some h]"
    using v6 by (simp add: magic_view_eq update_conv' magic_paths_distinct)
  have v4: "magic_view w (AList.delete ?tp (AList.update ?cp h (gcs w6))) = [None, None, Some h]"
    using v6 by (simp add: magic_view_eq update_conv' delete_conv' magic_paths_distinct)
  have v1: "magic_view w (AList.update ?tp h (gcs w)) = [Some h, Some h, ?c]"
    using assms(2) by (simp add: magic_view_eq update_conv' magic_paths_distinct)
  have v2: "magic_view w (AList.delete ?p (AList.update ?tp h (gcs w))) = [None, Some h, ?c]"
    by (simp add: magic_view_eq update_conv' delete_conv' magic_paths_distinct)
  have vss: "map (magic_view w) ss = replicate (length ss) [None, Some h, ?c]"
    using ss(2) by (induction ss) simp_all
  have 1: "trace w' = trace w @ RestartCheck # es
        @ [BlobExists ?p, BlobCat ?p, GitPull, GitCheckout h, RestartCheck,
           BlobPut ?tp h, BlobDelete ?p] @ tail @ [BlobPut ?cp h, BlobDelete ?tp]"
    by (simp add: tr tail(1) Wc_trace)
  have st': "states w' = states w @ ([AList.update ?tp h (gcs w),
        AList.delete ?p (AList.update ?tp h (gcs w))] @ ss @ [AList.update ?cp h (gcs w6),
              AList.delete ?tp (AList.update ?cp h (gcs w6))])"
    by (simp add: st ss(1) Wc_states)
  have 2: "length (states w') = length (states w) + length ss + 4"
    by (simp add: st')
  have 3: "states w' ! length (states w) = AList.update ?tp h (gcs w)"
    by (simp add: st' nth_append)
  have 4: "map (magic_view w) (drop (length (states w)) (states w'))
       = [[Some h, Some h, ?c], [None, Some h, ?c]]
         @ replicate (length ss) [None, Some h, ?c]
         @ [[None, Some h, Some h], [None, None, Some h]]"
    by (simp add: st' v1 v2 v3 v4 vss)
  have 5: "magic_view w (gcs w') = [None, None, Some h]"
    by (simp add: g v4)
  have 6: "same_env w w'"
    using env by (simp add: w' sleep_def put_magic_file_eq delete_magic_file_eq same_env_def)
  from es tail(2) r 1 2 3 4 5 6 show ?thesis by blast
qed



lemma archive_status_eq:
  "archive_status n w =
     w\<lparr>gcs := AList.update (''gs://'' @ get_sha_destination (HEAD w) w @ ''/status'') (str_int n) (gcs w),
       trace := trace w @ [BlobPut (''gs://'' @ get_sha_destination (HEAD w) w @ ''/status'') (str_int n)],
       states := states w @ [AList.update (''gs://'' @ get_sha_destination (HEAD w) w @ ''/status'') (str_int n) (gcs w)]\<rparr>"
  by (simp add: archive_status_def archive_value_def archive_file_def store_put_def Let_def
      get_HEAD_sha1_def)

lemma runner_event_not_check: "list_all runner_event es \<Longrightarrow> list_all (\<lambda>e. \<not> is_check e) es"
proof (induction es)
  case Nil
  then show ?case by simp
next
  case (Cons e es)
  then show ?case by (cases e) simp_all
qed

lemma quiet_no_effect: "quiet es \<Longrightarrow> list_all (\<lambda>e. \<not> is_effect e) es"
  by (simp add: quiet_def list_all_iff)





text \<open>The seven ways a pass can go: the script changed on disk, no offer, a dirty
  checkout, an identifier that cannot be checked out, the script changed by the
  checkout, a checkout that lands on another revision, and the claim.\<close>

lemma iteration_cases:
  assumes ret: "iteration fuel oc w = Some (r, w')"
  obtains
    (restart) "r = Inl Execv" "w' = w\<lparr>trace := trace w @ [RestartCheck, ExecvSelf]\<rparr>"
  | (idle) es where "quiet es" "r = Inr ()"
      "map_of (gcs w) (get_magic_file_gs_path READY_FOR_TESTING w) = None"
      "w' = sleep PULL_DELAY (w\<lparr>trace := trace w @ RestartCheck # es\<rparr>)"
  | (dirty) es where "quiet es" "r = Inl (SysExit 1)"
      "w' = w\<lparr>trace := trace w @ RestartCheck # es\<rparr>"
  | (vacuous) es h sha where "quiet es" "r = Inr ()"
      "map_of (gcs w) (get_magic_file_gs_path READY_FOR_TESTING w) = Some h"
      "not_checked_out (commits w h)"
      "sha = (case commits w h of None \<Rightarrow> master_tip w | Some s \<Rightarrow> s)"
      "w' = delete_magic_file READY_FOR_TESTING
              (put_magic_file TESTING_COMPLETE h
                 (archive_status 0
                    (w\<lparr>HEAD := sha, own_file := script_at w sha,
                       trace := trace w @ RestartCheck # es\<rparr>)))"
  | (restart2) es sha where "quiet es" "r = Inl Execv"
      "w' = w\<lparr>HEAD := sha, own_file := script_at w sha,
               trace := trace w @ RestartCheck # es @ [RestartCheck, ExecvSelf]\<rparr>"
  | (mismatch) es sha where "quiet es" "r = Inl (SysExit 1)"
      "w' = w\<lparr>HEAD := sha, own_file := script_at w sha,
               trace := trace w @ RestartCheck # es @ [RestartCheck]\<rparr>"
  | (claim) h where "own_file w = oc"
      "map_of (gcs w) (get_magic_file_gs_path READY_FOR_TESTING w) = Some h"
      "\<not> git_dirty w" "commits w h = Some h" "h \<noteq> []" "script_at w h = oc"
proof -
  let ?p = "get_magic_file_gs_path READY_FOR_TESTING w"
  obtain es where es: "quiet es" and it: "iteration fuel oc w =
    (if own_file w \<noteq> oc
     then Some (Inl Execv, w\<lparr>trace := trace w @ [RestartCheck, ExecvSelf]\<rparr>)
     else
       (let p = get_magic_file_gs_path READY_FOR_TESTING w in
        case map_of (gcs w) p of
          None \<Rightarrow>
            Some (Inr (), sleep PULL_DELAY (w\<lparr>trace := trace w @ RestartCheck # es @ [BlobExists p]\<rparr>))
        | Some h \<Rightarrow>
            if git_dirty w
            then Some (Inl (SysExit 1),
                   w\<lparr>trace := trace w @ RestartCheck # es @ [BlobExists p, BlobCat p]\<rparr>)
            else
              (let sha = (case commits w h of None \<Rightarrow> master_tip w | Some s \<Rightarrow> s);
                   W = w\<lparr>HEAD := sha, own_file := script_at w sha,
                         trace := trace w @ RestartCheck # es
                                    @ [BlobExists p, BlobCat p, GitPull, GitCheckout h]\<rparr>
               in if not_checked_out (commits w h)
                  then Some (Inr (),
                         delete_magic_file READY_FOR_TESTING
                           (put_magic_file TESTING_COMPLETE h (archive_status 0 W)))
                  else if script_at w sha \<noteq> oc
                  then Some (Inl Execv, W\<lparr>trace := trace W @ [RestartCheck, ExecvSelf]\<rparr>)
                  else if commits w h \<noteq> Some h
                  then Some (Inl (SysExit 1), W\<lparr>trace := trace W @ [RestartCheck]\<rparr>)
                  else
                    (case run_once fuel True
                            (delete_magic_file READY_FOR_TESTING
                               (put_magic_file TESTING h (W\<lparr>trace := trace W @ [RestartCheck]\<rparr>))) of
                       None \<Rightarrow> None
                     | Some (exitcode, w6) \<Rightarrow>
                         Some (Inr (),
                           sleep PULL_DELAY
                             (delete_magic_file TESTING
                                (put_magic_file TESTING_COMPLETE h w6)))))))"
    using iteration_eq[of fuel oc w] by blast
  show thesis
  proof (cases "own_file w \<noteq> oc")
    case True
    with it ret restart show ?thesis by simp
  next
    case same: False
    show ?thesis
    proof (cases "map_of (gcs w) ?p")
      case None
      have "quiet (es @ [BlobExists ?p])" using es by simp
      moreover have "w' = sleep PULL_DELAY (w\<lparr>trace := trace w @ RestartCheck # (es @ [BlobExists ?p])\<rparr>)"
        "r = Inr ()"
        using it ret same None by (simp_all add: Let_def)
      ultimately show ?thesis using idle None by blast
    next
      case (Some h)
      show ?thesis
      proof (cases "git_dirty w")
        case True
        have "quiet (es @ [BlobExists ?p, BlobCat ?p])" using es by simp
        moreover have "w' = w\<lparr>trace := trace w @ RestartCheck # (es @ [BlobExists ?p, BlobCat ?p])\<rparr>"
          "r = Inl (SysExit 1)"
          using it ret same Some True by (simp_all add: Let_def)
        ultimately show ?thesis using dirty by blast
      next
        case clean: False
        define sha where "sha = (case commits w h of None \<Rightarrow> master_tip w | Some s \<Rightarrow> s)"
        let ?es = "es @ [BlobExists ?p, BlobCat ?p, GitPull, GitCheckout h]"
        have q: "quiet ?es" using es by simp
        show ?thesis
        proof (cases "not_checked_out (commits w h)")
          case True
          have "w' = delete_magic_file READY_FOR_TESTING
              (put_magic_file TESTING_COMPLETE h
                 (archive_status 0
                    (w\<lparr>HEAD := sha, own_file := script_at w sha,
                       trace := trace w @ RestartCheck # ?es\<rparr>)))" "r = Inr ()"
            using it ret same Some clean True by (simp_all add: Let_def sha_def)
          with q Some True sha_def show ?thesis using vacuous by blast
        next
          case ok: False
          show ?thesis
          proof (cases "script_at w sha \<noteq> oc")
            case True
            have "w' = w\<lparr>HEAD := sha, own_file := script_at w sha,
               trace := trace w @ RestartCheck # ?es @ [RestartCheck, ExecvSelf]\<rparr>" "r = Inl Execv"
              using it ret same Some clean ok True by (simp_all add: Let_def sha_def)
            with q show ?thesis using restart2 by blast
          next
            case unchanged: False
            show ?thesis
            proof (cases "commits w h \<noteq> Some h")
              case True
              have "w' = w\<lparr>HEAD := sha, own_file := script_at w sha,
                 trace := trace w @ RestartCheck # ?es @ [RestartCheck]\<rparr>" "r = Inl (SysExit 1)"
                using it ret same Some clean ok unchanged True by (simp_all add: Let_def sha_def)
              with q show ?thesis using mismatch by blast
            next
              case False
              then have c: "commits w h = Some h" by simp
              with ok have "h \<noteq> []" by simp
              moreover have "script_at w h = oc" using unchanged c by (simp add: sha_def)
              ultimately show ?thesis using claim same Some clean c by blast
            qed
          qed
        qed
      qed
    qed
  qed
qed


section \<open>Self-Update Supervisor: where the checks stand in a pass\<close>


lemma filter_none: "list_all (\<lambda>e. \<not> P e) es \<Longrightarrow> filter P es = []"
  by (induction es) auto










lemma pass_keeps_unclaimed:
  assumes ret: "iteration fuel oc w = Some (r, w')"
    and un: "map_of (gcs w) (get_magic_file_gs_path TESTING w) = None"
  shows "map_of (gcs w') (get_magic_file_gs_path TESTING w) = None \<and> same_env w w'"
  using ret
proof (cases rule: iteration_cases)
  case restart
  with un show ?thesis by (simp add: same_env_def)
next
  case (idle es)
  with un show ?thesis by (simp add: same_env_def sleep_def)
next
  case (dirty es)
  with un show ?thesis by (simp add: same_env_def)
next
  case (vacuous es h sha)
  have ne: "get_magic_file_gs_path TESTING w \<noteq> (''gs://'' @ get_sha_destination sha w) @ ''/'' @ ''status''"
    by (rule magic_ne_log) (simp_all add: log_field_def ALL_MAGIC_def)
  show ?thesis
    using un ne
    by (simp add: vacuous(6) put_magic_file_eq delete_magic_file_eq archive_status_eq
        same_env_def update_conv' delete_conv' magic_paths_distinct)
next
  case (restart2 es sha)
  with un show ?thesis by (simp add: same_env_def)
next
  case (mismatch es sha)
  with un show ?thesis by (simp add: same_env_def)
next
  case (claim h)
  from claim_pass[OF claim ret] have "magic_view w (gcs w') = [None, None, Some h]" "same_env w w'"
    by blast+
  then show ?thesis by (simp add: magic_view_eq)
qed

lemma loop_keeps_unclaimed:
  assumes "run_continuously_loop peer rounds fuel oc w = Some (a, w')"
    and "map_of (gcs w) (get_magic_file_gs_path TESTING w) = None"
    and peer: "\<And>t (s :: store). map_of s (get_magic_file_gs_path TESTING w) = None \<Longrightarrow>
                 map_of (peer t s) (get_magic_file_gs_path TESTING w) = None"
  shows "map_of (gcs w') (get_magic_file_gs_path TESTING w) = None"
  using assms
proof (induction rounds arbitrary: w)
  case 0
  then show ?case by simp
next
  case (Suc rounds)
  from Suc.prems(1) obtain r w1 where it: "iteration fuel oc w = Some (r, w1)"
    by (cases "iteration fuel oc w") auto
  from pass_keeps_unclaimed[OF it Suc.prems(2)] have
    un1: "map_of (gcs w1) (get_magic_file_gs_path TESTING w) = None" and env: "same_env w w1"
    by blast+
  show ?case
  proof (cases r)
    case (Inl e)
    with Suc.prems(1) it un1 show ?thesis by simp
  next
    case (Inr u)
    let ?w2 = "w1\<lparr>gcs := peer (clock w1) (gcs w1)\<rparr>"
    have p2: "get_magic_file_gs_path TESTING ?w2 = get_magic_file_gs_path TESTING w"
      using same_env_paths(4)[OF env] by simp
    from Suc.prems(1) it Inr have
      loop: "run_continuously_loop peer rounds fuel oc ?w2 = Some (a, w')" by simp
    have "map_of (gcs w') (get_magic_file_gs_path TESTING ?w2) = None"
    proof (rule Suc.IH[OF loop])
      show "map_of (gcs ?w2) (get_magic_file_gs_path TESTING ?w2) = None"
        unfolding p2 using Suc.prems(3)[OF un1] by simp
    next
      fix t and s :: store
      assume "map_of s (get_magic_file_gs_path TESTING ?w2) = None"
      then show "map_of (peer t s) (get_magic_file_gs_path TESTING ?w2) = None"
        unfolding p2 by (rule Suc.prems(3))
    qed
    then show ?thesis unfolding p2 .
  qed
qed

lemma pass_checks_first:
  assumes ret: "iteration fuel oc w = Some (r, w')"
  shows "\<exists>pre post. trace w' = trace w @ pre @ post \<and>
           list_all (\<lambda>e. \<not> is_effect e) pre \<and> list_all (\<lambda>e. \<not> is_check e) post \<and>
           (r = Inl Execv \<longrightarrow> post = [] \<and> gcs w' = gcs w)"
  using ret
proof (cases rule: iteration_cases)
  case restart
  then show ?thesis
    by (intro exI[of _ "[RestartCheck, ExecvSelf]"] exI[of _ "[]"]) simp
next
  case (idle es)
  then show ?thesis
    by (intro exI[of _ "RestartCheck # es"] exI[of _ "[]"]) (simp add: sleep_def quiet_no_effect)
next
  case (dirty es)
  then show ?thesis
    by (intro exI[of _ "RestartCheck # es"] exI[of _ "[]"]) (simp add: quiet_no_effect)
next
  case (vacuous es h sha)
  let ?post = "[BlobPut (''gs://'' @ get_sha_destination sha w @ ''/status'') (str_int 0),
                BlobPut (get_magic_file_gs_path TESTING_COMPLETE w) h,
                BlobDelete (get_magic_file_gs_path READY_FOR_TESTING w)]"
  have "trace w' = trace w @ (RestartCheck # es) @ ?post"
    by (simp add: vacuous(6) put_magic_file_eq delete_magic_file_eq archive_status_eq)
  with vacuous(1,2) show ?thesis
    by (intro exI[of _ "RestartCheck # es"] exI[of _ "?post"]) (simp add: quiet_no_effect)
next
  case (restart2 es sha)
  then show ?thesis
    by (intro exI[of _ "RestartCheck # es @ [RestartCheck, ExecvSelf]"] exI[of _ "[]"])
       (simp add: quiet_no_effect)
next
  case (mismatch es sha)
  then show ?thesis
    by (intro exI[of _ "RestartCheck # es @ [RestartCheck]"] exI[of _ "[]"])
       (simp add: quiet_no_effect)
next
  case (claim h)
  let ?p = "get_magic_file_gs_path READY_FOR_TESTING w"
  let ?tp = "get_magic_file_gs_path TESTING w"
  let ?cp = "get_magic_file_gs_path TESTING_COMPLETE w"
  from claim_pass[OF claim ret] obtain es tail where
    es: "quiet es" and tail: "list_all runner_event tail" and r: "r = Inr ()"
    and tr: "trace w' = trace w @ RestartCheck # es
        @ [BlobExists ?p, BlobCat ?p, GitPull, GitCheckout h, RestartCheck,
           BlobPut ?tp h, BlobDelete ?p] @ tail @ [BlobPut ?cp h, BlobDelete ?tp]"
    by blast
  let ?pre = "RestartCheck # es @ [BlobExists ?p, BlobCat ?p, GitPull, GitCheckout h, RestartCheck]"
  let ?post = "[BlobPut ?tp h, BlobDelete ?p] @ tail @ [BlobPut ?cp h, BlobDelete ?tp]"
  show ?thesis
    using tr r quiet_no_effect[OF es] runner_event_not_check[OF tail]
    by (intro exI[of _ "?pre"] exI[of _ "?post"]) simp
qed

text \<open>
  C10. Within every pass of the consumer loop, each self-update check (and an
  \<open>os.execv\<close> it leads to) stands before every effect of the pass: before \<open>CLAIMED\<close> is
  written, before \<open>OFFERED\<close> is deleted, before any command is run. A pass that ends
  in \<open>os.execv\<close> has changed nothing in the store. And over the whole loop: when no
  \<open>CLAIMED\<close> blob exists at the start and the other party never writes one, none
  exists at the moment the consumer re-executes itself.
\<close>

theorem restart_never_abandons_claim:
  "(\<forall>r w'. iteration fuel oc w = Some (r, w') \<longrightarrow>
      (\<exists>pre post. trace w' = trace w @ pre @ post \<and>
           list_all (\<lambda>e. \<not> is_effect e) pre \<and> list_all (\<lambda>e. \<not> is_check e) post \<and>
           (r = Inl Execv \<longrightarrow> post = [] \<and> gcs w' = gcs w)))
   \<and> (\<forall>w'. run_continuously_loop peer rounds fuel oc w = Some (Execv, w') \<longrightarrow>
         map_of (gcs w) (get_magic_file_gs_path TESTING w) = None \<longrightarrow>
         (\<forall>t s. map_of s (get_magic_file_gs_path TESTING w) = None \<longrightarrow>
                map_of (peer t s) (get_magic_file_gs_path TESTING w) = None) \<longrightarrow>
         map_of (gcs w') (get_magic_file_gs_path TESTING w) = None)"
proof (intro conjI allI impI)
  fix r w'
  assume "iteration fuel oc w = Some (r, w')"
  then show "\<exists>pre post. trace w' = trace w @ pre @ post \<and>
           list_all (\<lambda>e. \<not> is_effect e) pre \<and> list_all (\<lambda>e. \<not> is_check e) post \<and>
           (r = Inl Execv \<longrightarrow> post = [] \<and> gcs w' = gcs w)"
    by (rule pass_checks_first)
next
  fix w'
  assume "run_continuously_loop peer rounds fuel oc w = Some (Execv, w')"
    and "map_of (gcs w) (get_magic_file_gs_path TESTING w) = None"
    and "\<forall>t s. map_of s (get_magic_file_gs_path TESTING w) = None \<longrightarrow>
                map_of (peer t s) (get_magic_file_gs_path TESTING w) = None"
  then show "map_of (gcs w') (get_magic_file_gs_path TESTING w) = None"
    by (intro loop_keeps_unclaimed[of peer rounds fuel oc w Execv w']) auto
qed

text \<open>A world in which the offered revision carries a new version of the script.\<close>

definition updating_world :: world where
  "updating_world = offered_world\<lparr>script_at := (\<lambda>sha. ''v2'')\<rparr>"

theorem restart_never_abandons_claim_witness:
  "\<exists>w'. run_continuously (\<lambda>t s. s) 1 1 updating_world = Some (Execv, w')
      \<and> map_of (gcs updating_world) (get_magic_file_gs_path TESTING updating_world) = None
      \<and> map_of (gcs w') (get_magic_file_gs_path TESTING updating_world) = None
      \<and> map_of (gcs w') (get_magic_file_gs_path READY_FOR_TESTING updating_world) = Some ''abc''"
proof -
  have facts: "own_file updating_world = ''v1''"
    "get_magic_file_gs_path READY_FOR_TESTING updating_world
       = ''gs://r8-test-results/internal/magic/READY_FOR_TESTING''"
    "get_magic_file_gs_path TESTING updating_world = ''gs://r8-test-results/internal/magic/TESTING''"
    "gcs updating_world = [(''gs://r8-test-results/internal/magic/READY_FOR_TESTING'', ''abc'')]"
    "\<not> git_dirty updating_world" "commits updating_world ''abc'' = Some ''abc''"
    "script_at updating_world ''abc'' = ''v2''"
    by (simp_all add: updating_world_def offered_world_def base_world_def get_magic_file_gs_path_def
      get_magic_file_base_path_def get_test_result_dir_def os_path_join_def startswith_def
      endswith_def TEST_RESULT_DIR_def READY_FOR_TESTING_def TESTING_def)
  obtain es where "iteration 1 ''v1'' updating_world
      = Some (Inl Execv, updating_world\<lparr>HEAD := ''abc'', own_file := ''v2'',
           trace := trace updating_world @ RestartCheck # es
              @ [BlobExists ''gs://r8-test-results/internal/magic/READY_FOR_TESTING'',
                 BlobCat ''gs://r8-test-results/internal/magic/READY_FOR_TESTING'',
                 GitPull, GitCheckout ''abc''] @ [RestartCheck, ExecvSelf]\<rparr>)"
    using iteration_eq[of 1 "''v1''" updating_world] by (auto simp: facts Let_def)
  then obtain w' where it: "iteration 1 ''v1'' updating_world = Some (Inl Execv, w')"
    and g: "gcs w' = gcs updating_world" by simp
  have loop: "run_continuously_loop (\<lambda>t s. s) 1 1 ''v1'' updating_world = Some (Execv, w')"
    using it by simp
  have un: "map_of (gcs updating_world) (get_magic_file_gs_path TESTING updating_world) = None"
    by (simp add: facts)
  from restart_never_abandons_claim[of 1 "''v1''" updating_world "\<lambda>t s. s" 1] loop un
  have "map_of (gcs w') (get_magic_file_gs_path TESTING updating_world) = None"
    by blast
  moreover have "map_of (gcs w') (get_magic_file_gs_path READY_FOR_TESTING updating_world) = Some ''abc''"
    by (simp add: g facts)
  ultimately show ?thesis
    using loop un by (simp add: run_continuously_def get_own_file_content_def facts)
qed




section \<open>Handoff State Machine: stale Signal Blobs\<close>

lemma cleanup_magic_clears:
  "magic_view w (gcs (cleanup_magic ALL_MAGIC w)) = [None, None, None]
   \<and> same_env w (cleanup_magic ALL_MAGIC w)
   \<and> HEAD (cleanup_magic ALL_MAGIC w) = HEAD w
   \<and> clock (cleanup_magic ALL_MAGIC w) = clock w"
  by (auto simp: ALL_MAGIC_def get_magic_file_exists_eq delete_magic_file_eq magic_view_eq
      delete_conv' magic_paths_distinct same_env_def split: bool.splits)

lemma bot_offer_eq:
  "\<exists>W. magic_view w (gcs W) = [None, None, None] \<and> same_env w W \<and> HEAD W = HEAD w
       \<and> clock W = clock w \<and>
       bot_offer peer w =
         (case bot_wait peer (HEAD w) (clock w) (put_magic_file READY_FOR_TESTING (HEAD w) W) of
            (Inl e, w3) \<Rightarrow> (Inl e, w3)
          | (Inr u, w3) \<Rightarrow> (Inr (HEAD w), w3))"
proof -
  obtain es1 where 1: "print_magic_file_state w = w\<lparr>trace := trace w @ es1\<rparr>"
    using print_magic_file_state_reads by blast
  define w1 where "w1 = cleanup_magic ALL_MAGIC (w\<lparr>trace := trace w @ es1\<rparr>)"
  have c: "magic_view w (gcs w1) = [None, None, None]" "same_env w w1" "HEAD w1 = HEAD w"
    "clock w1 = clock w"
    using cleanup_magic_clears[of "w\<lparr>trace := trace w @ es1\<rparr>"]
    by (simp_all add: w1_def magic_view_eq same_env_def)
  obtain es2 where 2: "print_magic_file_state w1 = w1\<lparr>trace := trace w1 @ es2\<rparr>"
    using print_magic_file_state_reads by blast
  let ?p = "get_magic_file_gs_path READY_FOR_TESTING w"
  have p1: "get_magic_file_gs_path READY_FOR_TESTING w1 = ?p"
    using c(2) by (rule same_env_paths)
  let ?W = "w1\<lparr>trace := trace w1 @ es2 @ [BlobExists ?p]\<rparr>"
  have absent: "map_of (gcs w1) ?p = None" using c(1) by (simp add: magic_view_eq)
  have "bot_offer peer w =
         (case bot_wait peer (HEAD w) (clock w) (put_magic_file READY_FOR_TESTING (HEAD w) ?W) of
            (Inl e, w3) \<Rightarrow> (Inl e, w3)
          | (Inr u, w3) \<Rightarrow> (Inr (HEAD w), w3))"
    unfolding bot_offer_def 1 w1_def[symmetric] 2
    using absent c(3,4)
    by (simp add: get_magic_file_exists_eq p1 Let_def get_HEAD_sha1_def put_magic_file_eq
          split: prod.splits sum.splits)
  moreover have "magic_view w (gcs ?W) = [None, None, None]" "same_env w ?W" "HEAD ?W = HEAD w"
    "clock ?W = clock w"
    using c by (simp_all add: same_env_def)
  ultimately show ?thesis by blast
qed








section \<open>Handoff State Machine: how many Signal Blobs exist\<close>





section \<open>Handoff State Machine: an identifier that cannot be checked out\<close>

lemma gerrit_world_facts:
  "own_file gerrit_world = ''v1''"
  "get_magic_file_gs_path READY_FOR_TESTING gerrit_world
     = ''gs://r8-test-results/internal/magic/READY_FOR_TESTING''"
  "get_magic_file_gs_path TESTING_COMPLETE gerrit_world
     = ''gs://r8-test-results/internal/magic/TESTING_COMPLETE''"
  "gcs gerrit_world = [(''gs://r8-test-results/internal/magic/READY_FOR_TESTING'', ''c0ffee'')]"
  "\<not> git_dirty gerrit_world" "commits gerrit_world ''c0ffee'' = None"
  "master_tip gerrit_world = ''m1''" "trace gerrit_world = []"
  "get_sha_destination ''m1'' gerrit_world = ''r8-test-results/internal/m1''"
  "get_sha_destination ''c0ffee'' gerrit_world = ''r8-test-results/internal/c0ffee''"
  by (simp_all add: gerrit_world_def base_world_def get_magic_file_gs_path_def
      get_magic_file_base_path_def get_test_result_dir_def get_sha_destination_def
      os_path_join_def startswith_def endswith_def TEST_RESULT_DIR_def READY_FOR_TESTING_def
      TESTING_COMPLETE_def)

text \<open>
  C5: the code at an offer that cannot be checked out. The consumer pulls (its
  \<open>HEAD\<close> becomes the tip of master, \<open>m1\<close>), fails to check out \<open>c0ffee\<close>, writes
  the Overall Status \<open>0\<close> under \<open>m1\<close>, writes \<open>FINISHED = c0ffee\<close>, deletes \<open>OFFERED\<close>
  and runs no command. No Overall Status exists for \<open>c0ffee\<close>: the producer's
  \<open>get_status\<close> of it raises.
\<close>

theorem status_written_for_head_not_hash:
  "map_option (\<lambda>(r, w'). (r, filter is_effect (trace w'), gcs w', HEAD w',
       fst (get_status ''c0ffee'' w'))) (iteration 1 ''v1'' gerrit_world)
   = Some (Inr (),
      [BlobPut ''gs://r8-test-results/internal/m1/status'' ''0'',
       BlobPut ''gs://r8-test-results/internal/magic/TESTING_COMPLETE'' ''c0ffee'',
       BlobDelete ''gs://r8-test-results/internal/magic/READY_FOR_TESTING''],
      [(''gs://r8-test-results/internal/m1/status'', ''0''),
       (''gs://r8-test-results/internal/magic/TESTING_COMPLETE'', ''c0ffee'')],
      ''m1'', Inl (Raised ''CalledProcessError''))"
proof -
  let ?p = "''gs://r8-test-results/internal/magic/READY_FOR_TESTING''"
  obtain es where es: "quiet es" and it: "iteration 1 ''v1'' gerrit_world
      = Some (Inr (),
          delete_magic_file READY_FOR_TESTING
            (put_magic_file TESTING_COMPLETE ''c0ffee''
               (archive_status 0
                  (gerrit_world\<lparr>HEAD := ''m1'', own_file := script_at gerrit_world ''m1'',
                     trace := trace gerrit_world @ RestartCheck # es
                        @ [BlobExists ?p, BlobCat ?p, GitPull, GitCheckout ''c0ffee'']\<rparr>))))"
    using iteration_eq[of 1 "''v1''" gerrit_world] by (auto simp: gerrit_world_facts Let_def)
  define w' where "w' = delete_magic_file READY_FOR_TESTING
            (put_magic_file TESTING_COMPLETE ''c0ffee''
               (archive_status 0
                  (gerrit_world\<lparr>HEAD := ''m1'', own_file := script_at gerrit_world ''m1'',
                     trace := trace gerrit_world @ RestartCheck # es
                        @ [BlobExists ?p, BlobCat ?p, GitPull, GitCheckout ''c0ffee'']\<rparr>)))"
  have tr: "trace w' = (RestartCheck # es @ [BlobExists ?p, BlobCat ?p, GitPull, GitCheckout ''c0ffee''])
      @ [BlobPut ''gs://r8-test-results/internal/m1/status'' ''0'',
         BlobPut ''gs://r8-test-results/internal/magic/TESTING_COMPLETE'' ''c0ffee'',
         BlobDelete ?p]"
    by (simp add: w'_def put_magic_file_eq delete_magic_file_eq archive_status_eq
        gerrit_world_facts str_int_def str_nat.simps)
  have "filter is_effect (RestartCheck # es @ [BlobExists ?p, BlobCat ?p, GitPull, GitCheckout ''c0ffee'']) = []"
    using filter_none[OF quiet_no_effect[OF es]] by simp
  then have 1: "filter is_effect (trace w')
      = [BlobPut ''gs://r8-test-results/internal/m1/status'' ''0'',
         BlobPut ''gs://r8-test-results/internal/magic/TESTING_COMPLETE'' ''c0ffee'',
         BlobDelete ?p]"
    unfolding tr by simp
  have 2: "gcs w' = [(''gs://r8-test-results/internal/m1/status'', ''0''),
       (''gs://r8-test-results/internal/magic/TESTING_COMPLETE'', ''c0ffee'')]"
    by (simp add: w'_def put_magic_file_eq delete_magic_file_eq archive_status_eq
        gerrit_world_facts str_int_def str_nat.simps AList.delete_eq)
  have 3: "HEAD w' = ''m1''"
    by (simp add: w'_def put_magic_file_eq delete_magic_file_eq archive_status_eq)
  have "get_sha_destination ''c0ffee'' w' = ''r8-test-results/internal/c0ffee''"
    by (simp add: w'_def put_magic_file_eq delete_magic_file_eq archive_status_eq
        gerrit_world_facts)
  then have 4: "fst (get_status ''c0ffee'' w') = Inl (Raised ''CalledProcessError'')"
    by (simp add: get_status_def cat_file_on_cloud_storage_def Let_def 2)
  show ?thesis
    unfolding it w'_def[symmetric] using 1 2 3 4 by simp
qed




section \<open>The producer's wait and exit\<close>

lemma length_TEST_COMMANDS: "length TEST_COMMANDS = 15"
  by (simp add: TEST_COMMANDS_def BENCHMARK_APPS_def)

lemma BOT_RUN_TIMEOUT_eq: "BOT_RUN_TIMEOUT = 324000"
  by (simp add: BOT_RUN_TIMEOUT_def RUN_TIMEOUT_def length_TEST_COMMANDS)

lemma bot_wait_timeout:
  "BOT_RUN_TIMEOUT < clock w - start \<Longrightarrow>
   bot_wait peer git_hash start w = (Inl (Raised ''Bot timeout''), w)"
  by (simp add: bot_wait.simps)

lemma bot_wait_break:
  assumes "\<not> BOT_RUN_TIMEOUT < clock w - start"
    and "map_of (gcs w) (get_magic_file_gs_path TESTING_COMPLETE w) = Some git_hash"
  shows "bot_wait peer git_hash start w =
     (Inr (), w\<lparr>trace := trace w @ [BlobExists (get_magic_file_gs_path TESTING_COMPLETE w),
                                    BlobCat (get_magic_file_gs_path TESTING_COMPLETE w)]\<rparr>)"
  using assms
  by (simp add: bot_wait.simps[of peer git_hash start w] get_magic_file_exists_eq
      get_magic_file_content_eq)

lemma bot_wait_mismatch:
  assumes "\<not> BOT_RUN_TIMEOUT < clock w - start"
    and "map_of (gcs w) (get_magic_file_gs_path TESTING_COMPLETE w) = Some c"
    and "c \<noteq> git_hash"
  shows "bot_wait peer git_hash start w =
     (Inl (Raised (''Non matching git hashes '' @ c @ '' and '' @ git_hash)),
      w\<lparr>trace := trace w @ [BlobExists (get_magic_file_gs_path TESTING_COMPLETE w),
                            BlobCat (get_magic_file_gs_path TESTING_COMPLETE w),
                            BlobCat (get_magic_file_gs_path TESTING_COMPLETE w)]\<rparr>)"
  using assms
  by (simp add: bot_wait.simps[of peer git_hash start w] get_magic_file_exists_eq
      get_magic_file_content_eq)

lemma bot_wait_continue:
  assumes "\<not> BOT_RUN_TIMEOUT < clock w - start"
    and "map_of (gcs w) (get_magic_file_gs_path TESTING_COMPLETE w) = None"
  shows "bot_wait peer git_hash start w =
     bot_wait peer git_hash start
       (sleep_beside peer PULL_DELAY
          (print_magic_file_state
             (w\<lparr>trace := trace w @ [BlobExists (get_magic_file_gs_path TESTING_COMPLETE w)]\<rparr>)))"
  using assms
  by (simp add: bot_wait.simps[of peer git_hash start w] get_magic_file_exists_eq)


text \<open>From the start of \<open>run_bot\<close> to its second poll: the cleanup leaves no
  \<open>FINISHED\<close>, so the first poll finds none and the producer sleeps once, during
  which the other party acts on the store.\<close>

lemma bot_offer_first_sleep:
  "\<exists>W1 s. gcs W1 = peer (clock w) s \<and> same_env w W1 \<and> clock W1 = clock w + PULL_DELAY \<and>
       bot_offer peer w =
         (case bot_wait peer (HEAD w) (clock w) W1 of
            (Inl e, w3) \<Rightarrow> (Inl e, w3)
          | (Inr u, w3) \<Rightarrow> (Inr (HEAD w), w3))"
proof -
  from bot_offer_eq[of w peer] obtain W where
    W: "magic_view w (gcs W) = [None, None, None]" "same_env w W" "clock W = clock w"
    and bo: "bot_offer peer w =
         (case bot_wait peer (HEAD w) (clock w) (put_magic_file READY_FOR_TESTING (HEAD w) W) of
            (Inl e, w3) \<Rightarrow> (Inl e, w3)
          | (Inr u, w3) \<Rightarrow> (Inr (HEAD w), w3))"
    by blast
  let ?W0 = "put_magic_file READY_FOR_TESTING (HEAD w) W"
  have p: "get_magic_file_gs_path m W = get_magic_file_gs_path m w" for m
    using W(2) by (rule same_env_paths)
  have p0: "get_magic_file_gs_path m ?W0 = get_magic_file_gs_path m w" for m
    by (simp add: put_magic_file_eq p)
  have absent: "map_of (gcs ?W0) (get_magic_file_gs_path TESTING_COMPLETE ?W0) = None"
    using W(1) by (simp add: put_magic_file_eq p magic_view_eq update_conv' magic_paths_distinct)
  have c0: "clock ?W0 = clock w" using W(3) by (simp add: put_magic_file_eq)
  then have running: "\<not> BOT_RUN_TIMEOUT < clock ?W0 - clock w" by simp
  let ?W0' = "?W0\<lparr>trace := trace ?W0 @ [BlobExists (get_magic_file_gs_path TESTING_COMPLETE ?W0)]\<rparr>"
  obtain es where es: "print_magic_file_state ?W0' = ?W0'\<lparr>trace := trace ?W0' @ es\<rparr>"
    using print_magic_file_state_reads by blast
  let ?W1 = "sleep_beside peer PULL_DELAY (?W0'\<lparr>trace := trace ?W0' @ es\<rparr>)"
  have bw: "bot_wait peer (HEAD w) (clock w) ?W0 = bot_wait peer (HEAD w) (clock w) ?W1"
    using bot_wait_continue[OF running absent] unfolding es .
  have g1: "gcs ?W1 = peer (clock w) (gcs ?W0)"
    using c0 by (simp add: sleep_beside_def sleep_def)
  have e1: "same_env w ?W1"
    using W(2) by (simp add: sleep_beside_def sleep_def same_env_def put_magic_file_eq)
  have c1: "clock ?W1 = clock w + PULL_DELAY"
    using c0 by (simp add: sleep_beside_def sleep_def)
  have b1: "bot_offer peer w =
         (case bot_wait peer (HEAD w) (clock w) ?W1 of
            (Inl e, w3) \<Rightarrow> (Inl e, w3)
          | (Inr u, w3) \<Rightarrow> (Inr (HEAD w), w3))"
    unfolding bo bw ..
  show ?thesis
    by (rule exI[of _ ?W1], rule exI[of _ "gcs ?W0"]) (intro conjI g1 e1 c1 b1)
qed

text \<open>The other party as the consumer would act, during the producer's first sleep:
  one that finishes another identifier, and one that reports a failed run of
  \<open>abc\<close>.\<close>

definition finishes_other :: "nat \<Rightarrow> store \<Rightarrow> store" where
  "finishes_other t s =
     AList.update ''gs://r8-test-results/internal/magic/TESTING_COMPLETE'' ''other'' s"

definition reports_failure :: "nat \<Rightarrow> store \<Rightarrow> store" where
  "reports_failure t s =
     AList.update ''gs://r8-test-results/internal/magic/TESTING_COMPLETE'' ''abc''
       (AList.update ''gs://r8-test-results/internal/abc/status'' ''1'' s)"

lemma base_world_facts:
  "HEAD base_world = ''abc''" "clock base_world = 0"
  "get_magic_file_gs_path TESTING_COMPLETE base_world
     = ''gs://r8-test-results/internal/magic/TESTING_COMPLETE''"
  "get_sha_destination ''abc'' base_world = ''r8-test-results/internal/abc''"
  by (simp_all add: base_world_def get_magic_file_gs_path_def
      get_magic_file_base_path_def get_test_result_dir_def get_sha_destination_def
      os_path_join_def startswith_def endswith_def TEST_RESULT_DIR_def TESTING_COMPLETE_def)

text \<open>
  The producer's wait, poll by poll. \<open>bot_offered w\<close> is the world right after
  \<open>run_bot\<close> has written \<open>OFFERED\<close> (lines 275 to 284); \<open>bot_pass\<close> is a pass of the
  wait loop that finds no \<open>FINISHED\<close> (the existence test, the state print and the
  sleep, during which the other party acts); \<open>bot_poll peer n w\<close> is the world at the
  \<open>n\<close>-th test of the loop after \<open>n\<close> such passes.
\<close>

definition bot_offered :: "world \<Rightarrow> world" where
  "bot_offered w =
     (let w1 = snd (get_magic_file_exists READY_FOR_TESTING
                 (print_magic_file_state (cleanup_magic ALL_MAGIC (print_magic_file_state w))))
      in put_magic_file READY_FOR_TESTING (get_HEAD_sha1 w1) w1)"

definition bot_pass :: "(nat \<Rightarrow> store \<Rightarrow> store) \<Rightarrow> world \<Rightarrow> world" where
  "bot_pass peer w =
     sleep_beside peer PULL_DELAY
       (print_magic_file_state (snd (get_magic_file_exists TESTING_COMPLETE w)))"

fun bot_poll :: "(nat \<Rightarrow> store \<Rightarrow> store) \<Rightarrow> nat \<Rightarrow> world \<Rightarrow> world" where
  "bot_poll peer 0 w = w"
| "bot_poll peer (Suc n) w = bot_pass peer (bot_poll peer n w)"

lemma bot_offered_facts:
  "same_env w (bot_offered w)" "HEAD (bot_offered w) = HEAD w" "clock (bot_offered w) = clock w"
  "magic_view w (gcs (bot_offered w)) = [Some (HEAD w), None, None]"
proof -
  obtain es1 where 1: "print_magic_file_state w = w\<lparr>trace := trace w @ es1\<rparr>"
    using print_magic_file_state_reads by blast
  define w1 where "w1 = cleanup_magic ALL_MAGIC (w\<lparr>trace := trace w @ es1\<rparr>)"
  have c: "magic_view w (gcs w1) = [None, None, None]" "same_env w w1" "HEAD w1 = HEAD w"
    "clock w1 = clock w"
    using cleanup_magic_clears[of "w\<lparr>trace := trace w @ es1\<rparr>"]
    by (simp_all add: w1_def magic_view_eq same_env_def)
  obtain es2 where 2: "print_magic_file_state w1 = w1\<lparr>trace := trace w1 @ es2\<rparr>"
    using print_magic_file_state_reads by blast
  have p1: "get_magic_file_gs_path m w1 = get_magic_file_gs_path m w" for m
    using c(2) by (rule same_env_paths)
  let ?p = "get_magic_file_gs_path READY_FOR_TESTING w"
  have bo: "bot_offered w = put_magic_file READY_FOR_TESTING (HEAD w)
              (w1\<lparr>trace := trace w1 @ es2 @ [BlobExists ?p]\<rparr>)"
    unfolding bot_offered_def 1 w1_def[symmetric] 2
    by (simp add: get_magic_file_exists_eq p1 Let_def get_HEAD_sha1_def c(3))
  show "same_env w (bot_offered w)" "HEAD (bot_offered w) = HEAD w"
    "clock (bot_offered w) = clock w"
    using c by (simp_all add: bo put_magic_file_eq same_env_def)
  show "magic_view w (gcs (bot_offered w)) = [Some (HEAD w), None, None]"
    using c(1) by (simp add: bo put_magic_file_eq p1 magic_view_eq update_conv' magic_paths_distinct)
qed

lemma bot_offer_wait:
  "bot_offer peer w =
     (case bot_wait peer (HEAD w) (clock w) (bot_offered w) of
        (Inl e, w3) \<Rightarrow> (Inl e, w3)
      | (Inr u, w3) \<Rightarrow> (Inr (HEAD w), w3))"
proof -
  obtain es1 where 1: "print_magic_file_state w = w\<lparr>trace := trace w @ es1\<rparr>"
    using print_magic_file_state_reads by blast
  define w1 where "w1 = cleanup_magic ALL_MAGIC (w\<lparr>trace := trace w @ es1\<rparr>)"
  have c: "magic_view w (gcs w1) = [None, None, None]" "same_env w w1" "HEAD w1 = HEAD w"
    "clock w1 = clock w"
    using cleanup_magic_clears[of "w\<lparr>trace := trace w @ es1\<rparr>"]
    by (simp_all add: w1_def magic_view_eq same_env_def)
  obtain es2 where 2: "print_magic_file_state w1 = w1\<lparr>trace := trace w1 @ es2\<rparr>"
    using print_magic_file_state_reads by blast
  have p1: "get_magic_file_gs_path m w1 = get_magic_file_gs_path m w" for m
    using c(2) by (rule same_env_paths)
  let ?p = "get_magic_file_gs_path READY_FOR_TESTING w"
  have absent: "map_of (gcs w1) ?p = None" using c(1) by (simp add: magic_view_eq)
  show ?thesis
    unfolding bot_offer_def bot_offered_def 1 w1_def[symmetric] 2
    using absent c(3,4)
    by (simp add: get_magic_file_exists_eq p1 Let_def get_HEAD_sha1_def put_magic_file_eq
          split: prod.splits sum.splits)
qed

lemma bot_pass_facts:
  "same_env w (bot_pass peer w)" "HEAD (bot_pass peer w) = HEAD w"
  "clock (bot_pass peer w) = clock w + PULL_DELAY"
  "gcs (bot_pass peer w) = peer (clock w) (gcs w)"
  "states (bot_pass peer w) = states w"
  "\<exists>es. trace (bot_pass peer w) = trace w @ es \<and> quiet es"
proof -
  let ?w0 = "w\<lparr>trace := trace w @ [BlobExists (get_magic_file_gs_path TESTING_COMPLETE w)]\<rparr>"
  obtain es where es: "print_magic_file_state ?w0 = ?w0\<lparr>trace := trace ?w0 @ es\<rparr>" "quiet es"
    using print_magic_file_state_reads by blast
  have bp: "bot_pass peer w = sleep_beside peer PULL_DELAY (?w0\<lparr>trace := trace ?w0 @ es\<rparr>)"
    by (simp add: bot_pass_def get_magic_file_exists_eq es(1))
  show "same_env w (bot_pass peer w)" "HEAD (bot_pass peer w) = HEAD w"
    "clock (bot_pass peer w) = clock w + PULL_DELAY"
    "gcs (bot_pass peer w) = peer (clock w) (gcs w)"
    "states (bot_pass peer w) = states w"
    by (simp_all add: bp sleep_beside_def sleep_def same_env_def)
  have "trace (bot_pass peer w) = trace w @ (BlobExists (get_magic_file_gs_path TESTING_COMPLETE w) # es)"
    by (simp add: bp sleep_beside_def sleep_def)
  moreover have "quiet (BlobExists (get_magic_file_gs_path TESTING_COMPLETE w) # es)"
    using es(2) by simp
  ultimately show "\<exists>es. trace (bot_pass peer w) = trace w @ es \<and> quiet es" by blast
qed

lemma bot_poll_facts:
  "same_env w (bot_poll peer n w)" "HEAD (bot_poll peer n w) = HEAD w"
  "clock (bot_poll peer n w) = clock w + n * PULL_DELAY"
  "states (bot_poll peer n w) = states w"
  "\<exists>es. trace (bot_poll peer n w) = trace w @ es \<and> quiet es"
proof (induction n)
  case 0
  show "same_env w (bot_poll peer 0 w)" "HEAD (bot_poll peer 0 w) = HEAD w"
    "clock (bot_poll peer 0 w) = clock w + 0 * PULL_DELAY"
    "states (bot_poll peer 0 w) = states w"
    "\<exists>es. trace (bot_poll peer 0 w) = trace w @ es \<and> quiet es"
    by simp_all
next
  case (Suc n)
  show "same_env w (bot_poll peer (Suc n) w)"
    using Suc(1) bot_pass_facts(1)[where w="bot_poll peer n w" and peer=peer] by (simp add: same_env_trans)
  show "HEAD (bot_poll peer (Suc n) w) = HEAD w"
    using Suc(2) by (simp add: bot_pass_facts)
  show "clock (bot_poll peer (Suc n) w) = clock w + Suc n * PULL_DELAY"
    using Suc(3) by (simp add: bot_pass_facts)
  show "states (bot_poll peer (Suc n) w) = states w"
    using Suc(4) by (simp add: bot_pass_facts)
  from Suc(5) obtain es where es: "trace (bot_poll peer n w) = trace w @ es" "quiet es" by blast
  from bot_pass_facts(6)[where w="bot_poll peer n w" and peer=peer] obtain fs where
    fs: "trace (bot_pass peer (bot_poll peer n w)) = trace (bot_poll peer n w) @ fs" "quiet fs"
    by blast
  have "trace (bot_poll peer (Suc n) w) = trace w @ (es @ fs)" "quiet (es @ fs)"
    using es fs by simp_all
  then show "\<exists>es. trace (bot_poll peer (Suc n) w) = trace w @ es \<and> quiet es" by blast
qed

lemma bot_wait_polls:
  assumes "\<And>i. i < n \<Longrightarrow>
             map_of (gcs (bot_poll peer i w)) (get_magic_file_gs_path TESTING_COMPLETE w) = None
             \<and> \<not> BOT_RUN_TIMEOUT < clock (bot_poll peer i w) - start"
  shows "bot_wait peer git_hash start w = bot_wait peer git_hash start (bot_poll peer n w)"
  using assms
proof (induction n)
  case 0
  then show ?case by simp
next
  case (Suc n)
  have 1: "bot_wait peer git_hash start w = bot_wait peer git_hash start (bot_poll peer n w)"
    using Suc.prems by (intro Suc.IH) simp
  let ?v = "bot_poll peer n w"
  have p: "get_magic_file_gs_path TESTING_COMPLETE ?v = get_magic_file_gs_path TESTING_COMPLETE w"
    using bot_poll_facts(1)[where w=w and peer=peer and n=n] by (rule same_env_paths)
  from Suc.prems[of n] have a: "\<not> BOT_RUN_TIMEOUT < clock ?v - start"
    and b: "map_of (gcs ?v) (get_magic_file_gs_path TESTING_COMPLETE ?v) = None"
    unfolding p by simp_all
  have "bot_wait peer git_hash start ?v = bot_wait peer git_hash start (bot_pass peer ?v)"
    using bot_wait_continue[OF a b, of peer git_hash]
    by (simp add: bot_pass_def get_magic_file_exists_eq)
  with 1 show ?case by simp
qed

text \<open>
  C6. Let \<open>run_bot\<close> have offered its \<open>HEAD\<close>, and let the \<open>n\<close>-th test of its wait
  loop be the first to find \<open>FINISHED\<close>, with a payload \<open>c\<close> other than the offered
  identifier (no test up to it is later than the timeout). Then \<open>run_bot\<close> ends with
  the exception naming both, and the world it leaves is the world of that test with
  three reads of \<open>FINISHED\<close> added to the trace (the existence test, the comparison,
  the message): after the observation it reads no Overall Status and deletes nothing,
  \<open>FINISHED\<close> is still there with \<open>c\<close>, and from the offer on it has only read.
\<close>

theorem producer_raises_on_mismatch:
  assumes "\<forall>i<n. map_of (gcs (bot_poll peer i (bot_offered w)))
                    (get_magic_file_gs_path TESTING_COMPLETE w) = None
                \<and> \<not> BOT_RUN_TIMEOUT < clock (bot_poll peer i (bot_offered w)) - clock w"
    and "\<not> BOT_RUN_TIMEOUT < clock (bot_poll peer n (bot_offered w)) - clock w"
    and "map_of (gcs (bot_poll peer n (bot_offered w)))
           (get_magic_file_gs_path TESTING_COMPLETE w) = Some c"
    and "c \<noteq> HEAD w"
  shows "run_bot peer w =
     (Inl (Raised (''Non matching git hashes '' @ c @ '' and '' @ HEAD w)),
      (bot_poll peer n (bot_offered w))
        \<lparr>trace := trace (bot_poll peer n (bot_offered w))
           @ [BlobExists (get_magic_file_gs_path TESTING_COMPLETE w),
              BlobCat (get_magic_file_gs_path TESTING_COMPLETE w),
              BlobCat (get_magic_file_gs_path TESTING_COMPLETE w)]\<rparr>)
     \<and> map_of (gcs (bot_offered w)) (get_magic_file_gs_path READY_FOR_TESTING w) = Some (HEAD w)
     \<and> (\<exists>es. trace (bot_poll peer n (bot_offered w)) = trace (bot_offered w) @ es \<and> quiet es)
     \<and> states (snd (run_bot peer w)) = states (bot_offered w)
     \<and> map_of (gcs (snd (run_bot peer w))) (get_magic_file_gs_path TESTING_COMPLETE w) = Some c"
proof -
  let ?W0 = "bot_offered w"
  let ?Wn = "bot_poll peer n ?W0"
  let ?fp = "get_magic_file_gs_path TESTING_COMPLETE w"
  have env0: "same_env w ?W0" by (rule bot_offered_facts)
  have p0: "get_magic_file_gs_path m ?W0 = get_magic_file_gs_path m w" for m
    using env0 by (rule same_env_paths)
  have envn: "same_env ?W0 ?Wn" by (rule bot_poll_facts)
  have pn: "get_magic_file_gs_path m ?Wn = get_magic_file_gs_path m w" for m
    using same_env_paths(4)[OF envn] p0 by simp
  have 1: "bot_wait peer (HEAD w) (clock w) ?W0 = bot_wait peer (HEAD w) (clock w) ?Wn"
    using assms(1) by (intro bot_wait_polls) (simp add: p0)
  have 2: "bot_wait peer (HEAD w) (clock w) ?Wn =
     (Inl (Raised (''Non matching git hashes '' @ c @ '' and '' @ HEAD w)),
      ?Wn\<lparr>trace := trace ?Wn @ [BlobExists ?fp, BlobCat ?fp, BlobCat ?fp]\<rparr>)"
    using bot_wait_mismatch[OF assms(2), of c "HEAD w" peer] assms(3,4) by (simp add: pn)
  have rb: "run_bot peer w =
     (Inl (Raised (''Non matching git hashes '' @ c @ '' and '' @ HEAD w)),
      ?Wn\<lparr>trace := trace ?Wn @ [BlobExists ?fp, BlobCat ?fp, BlobCat ?fp]\<rparr>)"
    by (simp add: run_bot_def bot_offer_wait 1 2)
  have off: "map_of (gcs ?W0) (get_magic_file_gs_path READY_FOR_TESTING w) = Some (HEAD w)"
    using bot_offered_facts(4)[of w] by (simp add: magic_view_eq)
  have tr: "\<exists>es. trace ?Wn = trace ?W0 @ es \<and> quiet es" by (rule bot_poll_facts)
  have st: "states (snd (run_bot peer w)) = states ?W0"
    unfolding rb by (simp add: bot_poll_facts)
  have fin: "map_of (gcs (snd (run_bot peer w))) ?fp = Some c"
    unfolding rb using assms(3) by simp
  from rb off tr st fin show ?thesis by (intro conjI)
qed

theorem producer_raises_on_mismatch_witness:
  "map_of (gcs (bot_poll finishes_other 0 (bot_offered base_world)))
     ''gs://r8-test-results/internal/magic/TESTING_COMPLETE'' = None
   \<and> map_of (gcs (bot_poll finishes_other 1 (bot_offered base_world)))
     ''gs://r8-test-results/internal/magic/TESTING_COMPLETE'' = Some ''other''
   \<and> fst (run_bot finishes_other base_world)
       = Inl (Raised ''Non matching git hashes other and abc'')
   \<and> trace (snd (run_bot finishes_other base_world))
       = trace (bot_poll finishes_other 1 (bot_offered base_world))
           @ [BlobExists ''gs://r8-test-results/internal/magic/TESTING_COMPLETE'',
              BlobCat ''gs://r8-test-results/internal/magic/TESTING_COMPLETE'',
              BlobCat ''gs://r8-test-results/internal/magic/TESTING_COMPLETE'']
   \<and> map_of (gcs (snd (run_bot finishes_other base_world)))
       ''gs://r8-test-results/internal/magic/TESTING_COMPLETE'' = Some ''other''"
proof -
  let ?W0 = "bot_offered base_world"
  let ?fp = "''gs://r8-test-results/internal/magic/TESTING_COMPLETE''"
  have fp: "get_magic_file_gs_path TESTING_COMPLETE base_world = ?fp"
    by (simp add: base_world_facts)
  have g0: "map_of (gcs (bot_poll finishes_other 0 ?W0)) ?fp = None"
    using bot_offered_facts(4)[of base_world] by (simp add: magic_view_eq fp)
  have c0: "clock (bot_poll finishes_other 0 ?W0) = 0"
    by (simp add: bot_offered_facts base_world_facts)
  have g1: "map_of (gcs (bot_poll finishes_other 1 ?W0)) ?fp = Some ''other''"
    by (simp add: bot_pass_facts finishes_other_def update_conv')
  have c1: "clock (bot_poll finishes_other 1 ?W0) = PULL_DELAY"
    by (simp add: bot_pass_facts bot_offered_facts base_world_facts)
  have 1: "\<forall>i<1. map_of (gcs (bot_poll finishes_other i ?W0))
                    (get_magic_file_gs_path TESTING_COMPLETE base_world) = None
                \<and> \<not> BOT_RUN_TIMEOUT < clock (bot_poll finishes_other i ?W0) - clock base_world"
    using g0 c0 by (simp add: fp)
  have 2: "\<not> BOT_RUN_TIMEOUT < clock (bot_poll finishes_other 1 ?W0) - clock base_world"
    using c1 by (simp add: BOT_RUN_TIMEOUT_eq PULL_DELAY_def base_world_facts)
  have 3: "map_of (gcs (bot_poll finishes_other 1 ?W0))
             (get_magic_file_gs_path TESTING_COMPLETE base_world) = Some ''other''"
    using g1 by (simp add: fp)
  have 4: "''other'' \<noteq> HEAD base_world" by (simp add: base_world_facts)
  from producer_raises_on_mismatch[OF 1 2 3 4] g0 g1 show ?thesis
    by (simp add: fp base_world_facts)
qed

lemma bot_finish_eq:
  assumes "map_of (gcs w) (''gs://'' @ get_sha_destination git_hash w @ ''/status'') = Some st"
  shows "fst (bot_finish git_hash w) = Inr (if st \<noteq> ''0'' then Some 1 else None)"
    and "gcs (snd (bot_finish git_hash w))
         = AList.delete (get_magic_file_gs_path TESTING_COMPLETE w) (gcs w)"
  using assms
  by (simp_all add: bot_finish_def get_status_def cat_file_on_cloud_storage_def Let_def
      delete_magic_file_eq emit_def)

text \<open>
  C7. When the handoff completes (the wait loop of \<open>run_bot\<close> ends by its \<open>break\<close>,
  having seen \<open>FINISHED\<close> with the offered identifier) and the Overall Status stored
  for that identifier is \<open>st\<close>, the process run in bot mode exits with code 0 if
  \<open>st\<close> is \<open>0\<close> and with code 1 otherwise; in particular with 1 when it is \<open>1\<close>.
  \<open>FINISHED\<close> is deleted on the way.
\<close>

theorem producer_exit_code:
  assumes "bot_offer peer w = (Inr git_hash, w1)"
    and "map_of (gcs w1) (''gs://'' @ get_sha_destination git_hash w1 @ ''/status'') = Some st"
    and "\<not> continuous opts" and "bot opts"
  shows "map_option (\<lambda>(r, w'). exit_code r) (Main opts peer rounds fuel w)
           = Some (Some (if st = ''0'' then 0 else 1))
       \<and> (st = ''1'' \<longrightarrow> map_option (\<lambda>(r, w'). exit_code r) (Main opts peer rounds fuel w)
                            = Some (Some 1))
       \<and> (st = ''0'' \<longrightarrow> map_option (\<lambda>(r, w'). exit_code r) (Main opts peer rounds fuel w)
                            = Some (Some 0))
       \<and> map_option (\<lambda>(r, w'). gcs w') (Main opts peer rounds fuel w)
           = Some (AList.delete (get_magic_file_gs_path TESTING_COMPLETE w1) (gcs w1))"
proof -
  have rb: "run_bot peer w = bot_finish git_hash w1"
    using assms(1) by (simp add: run_bot_def)
  obtain r w' where bf: "bot_finish git_hash w1 = (r, w')" by (cases "bot_finish git_hash w1")
  from bot_finish_eq[OF assms(2)] bf have r: "r = Inr (if st \<noteq> ''0'' then Some 1 else None)"
    and g: "gcs w' = AList.delete (get_magic_file_gs_path TESTING_COMPLETE w1) (gcs w1)"
    by simp_all
  have m: "Main opts peer rounds fuel w
        = Some (if st \<noteq> ''0'' then Inr (RInt 1) else Inr RNone, w')"
    using assms(3,4) by (simp add: Main_def rb bf r)
  show ?thesis unfolding m using g by simp
qed

theorem producer_exit_code_witness:
  "map_option (\<lambda>(r, w'). exit_code r)
     (Main \<lparr>continuous = False, print_logs = None, bot = True, archive = False\<rparr>
        reports_failure 0 0 base_world)
   = Some (Some 1)"
proof -
  from bot_offer_first_sleep[of reports_failure base_world] obtain W1 s where
    g: "gcs W1 = reports_failure (clock base_world) s" and env: "same_env base_world W1"
    and c: "clock W1 = clock base_world + PULL_DELAY"
    and bo: "bot_offer reports_failure base_world =
         (case bot_wait reports_failure (HEAD base_world) (clock base_world) W1 of
            (Inl e, w3) \<Rightarrow> (Inl e, w3)
          | (Inr u, w3) \<Rightarrow> (Inr (HEAD base_world), w3))"
    by blast
  have p: "get_magic_file_gs_path TESTING_COMPLETE W1
           = ''gs://r8-test-results/internal/magic/TESTING_COMPLETE''"
    using same_env_paths(4)[OF env] by (simp add: base_world_facts)
  have d: "get_sha_destination ''abc'' W1 = ''r8-test-results/internal/abc''"
    using same_env_paths(2)[OF env] by (simp add: base_world_facts)
  have 1: "\<not> BOT_RUN_TIMEOUT < clock W1 - 0"
    by (simp add: c BOT_RUN_TIMEOUT_eq PULL_DELAY_def base_world_facts)
  have 2: "map_of (gcs W1) (get_magic_file_gs_path TESTING_COMPLETE W1) = Some ''abc''"
    by (simp add: g p reports_failure_def update_conv')
  let ?w1 = "W1\<lparr>trace := trace W1 @ [BlobExists (get_magic_file_gs_path TESTING_COMPLETE W1),
                                    BlobCat (get_magic_file_gs_path TESTING_COMPLETE W1)]\<rparr>"
  have off: "bot_offer reports_failure base_world = (Inr ''abc'', ?w1)"
    unfolding bo using bot_wait_break[OF 1 2, of reports_failure]
    by (simp add: base_world_facts)
  have st: "map_of (gcs ?w1) (''gs://'' @ get_sha_destination ''abc'' ?w1 @ ''/status'') = Some ''1''"
    by (simp add: d g reports_failure_def update_conv')
  from producer_exit_code[OF off st, of "\<lparr>continuous = False, print_logs = None, bot = True, archive = False\<rparr>" 0 0]
  show ?thesis by simp
qed


end
